theory Spec2Isabelle
  imports Main "HOL-Library.Word" "HOL-Library.Signed_Division" "HOL-Library.Sublist"
begin

unbundle bit_operations_syntax

section \<open>Data model of the DeckLink display (decklink.cpp)\<close>

text \<open>
  Frames live on the C++ heap and are handled through pointers; the model keeps them in a
  store indexed by address.  \<open>int64_t\<close>, \<open>long\<close>, \<open>BMDTimeValue\<close> and \<open>BMDTimeScale\<close>
  are 64-bit words read as two's complement, \<open>unsigned\<close>, \<open>uint32_t\<close> and \<open>ULONG\<close> are
  32-bit words.  Arithmetic on words wraps around.
\<close>

type_synonym frame_ptr = nat
type_synonym int64 = "64 word"
type_synonym uint32 = "32 word"

text \<open>\<open>class DeckLinkFrame\<close>; \<open>rightEye\<close> is set for a \<open>DeckLink3DFrame\<close>.\<close>

record DeckLinkFrame =
  width :: int
  height :: int
  rawBytes :: int
  pixelFormat :: nat
  rightEye :: "frame_ptr option"
  ref :: uint32
  timestamp :: int64

record video_desc =
  vd_width :: nat
  vd_height :: nat
  color_spec :: nat
  tile_count :: nat

text \<open>Calls made on \<open>IDeckLinkOutput\<close>, in the order they are made.\<close>

datatype device_call =
    ScheduleVideoFrame "frame_ptr option" int64 int64 int64
  | ScheduleAudioSamples uint32 int64 int64
  | DisplayVideoFrameSync frame_ptr
  | StopScheduledPlayback
  | SetScheduledFrameCompletionCallback bool
  | DisableVideoOutput
  | DisableAudioOutput
  | EnableVideoOutput
  | EnableAudioOutput
  | StartScheduledPlayback

text \<open>Messages logged at warning or error level.\<close>

datatype log_msg =
    Queue_overflow uint32
  | Missing_frame
  | Dismissed_frame uint32
  | Unsupported_pixel_format
  | Stereo_toggled
  | Stereo_tile_count
  | No_video_mode
  | Mode_check_failed
  | Mode_not_supported
  | EnableVideoOutput_failed
  | EnableAudioOutput_failed
  | StartScheduledPlayback_failed
  | ScheduleAudioSamples_failed

text \<open>
  The fields of \<open>buffer_pool_t\<close>, \<open>PlaybackDelegate\<close> (with its \<open>audio_vals\<close>) and
  \<open>state_decklink\<close> that the scheduled output path uses, with the frame store and the
  two traces of what the code does to the outside.
\<close>

record state_decklink =
  frames :: "frame_ptr \<Rightarrow> DeckLinkFrame"
  allocated :: nat
  frame_queue :: "frame_ptr list"
  schedFrames :: "frame_ptr list"
  lastSchedFrame :: "frame_ptr option"
  schedSeq :: int64
  m_audio_sync_ts :: int64
  saved_sync_ts :: int64
  last_sync_ts :: int64
  m_min_sched_frames :: uint32
  m_max_sched_frames :: uint32
  frameRateDuration :: int64
  frameRateScale :: int64
  vid_desc :: video_desc
  stereo :: bool
  initialized :: bool
  play_audio :: bool
  s_pixelFormat :: nat
  low_latency :: bool
  audio_reconfigure :: bool
  device_calls :: "device_call list"
  logged :: "log_msg list"

subsection \<open>Constants\<close>

definition SCHED_RANGE :: uint32 where "SCHED_RANGE = 2"
definition DEFAULT_MIN_SCHED_FRAMES :: uint32 where "DEFAULT_MIN_SCHED_FRAMES = 4"
definition DEFAULT_MAX_SCHED_FRAMES :: uint32 where
  "DEFAULT_MAX_SCHED_FRAMES = DEFAULT_MIN_SCHED_FRAMES + SCHED_RANGE"
definition MAX_UNPROC_QUEUE_SIZE :: uint32 where "MAX_UNPROC_QUEUE_SIZE = 10"

definition INT64_MIN :: int64 where "INT64_MIN = - (2 ^ 63)"

text \<open>\<open>enum audio_sync_val\<close>\<close>

definition deinit :: int64 where "deinit = INT64_MIN"
definition resync :: int64 where "resync = INT64_MIN + 1"

definition LOG :: "log_msg \<Rightarrow> state_decklink \<Rightarrow> state_decklink" where
  "LOG m s = s\<lparr>logged := logged s @ [m]\<rparr>"

definition call_device :: "device_call \<Rightarrow> state_decklink \<Rightarrow> state_decklink" where
  "call_device c s = s\<lparr>device_calls := device_calls s @ [c]\<rparr>"

subsection \<open>Reference counting: \<open>DeckLinkFrame::AddRef\<close> and \<open>DeckLinkFrame::Release\<close>\<close>

definition AddRef :: "frame_ptr \<Rightarrow> state_decklink \<Rightarrow> state_decklink" where
  "AddRef p s = s\<lparr>frames := (frames s)(p := (frames s p)\<lparr>ref := ref (frames s p) + 1\<rparr>)\<rparr>"

definition Release :: "frame_ptr \<Rightarrow> state_decklink \<Rightarrow> state_decklink" where
  "Release p s =
     (let ret = ref (frames s p) - 1;
          s' = s\<lparr>frames := (frames s)(p := (frames s p)\<lparr>ref := ret\<rparr>)\<rparr>
      in if ret = 0 then s'\<lparr>frame_queue := frame_queue s' @ [p]\<rparr> else s')"

text \<open>\<open>RELEASE_IF_NOT_NULL(lastSchedFrame)\<close>\<close>

definition release_lastSchedFrame :: "state_decklink \<Rightarrow> state_decklink" where
  "release_lastSchedFrame s =
     (case lastSchedFrame s of
        None \<Rightarrow> s
      | Some l \<Rightarrow> (Release l s)\<lparr>lastSchedFrame := None\<rparr>)"

subsection \<open>\<open>PlaybackDelegate::EnqueueFrame\<close>\<close>

definition EnqueueFrame :: "frame_ptr \<Rightarrow> state_decklink \<Rightarrow> bool \<times> state_decklink" where
  "EnqueueFrame deckLinkFrame s =
     (let buffered = (of_nat (length (schedFrames s)) :: uint32)
      in if buffered < MAX_UNPROC_QUEUE_SIZE
         then (True, s\<lparr>schedFrames := schedFrames s @ [deckLinkFrame]\<rparr>)
         else (False, (LOG (Queue_overflow buffered) (Release deckLinkFrame s))
                        \<lparr>m_audio_sync_ts := resync\<rparr>))"

subsection \<open>\<open>PlaybackDelegate::ScheduleNextFrame\<close>\<close>

text \<open>
  Division of \<open>int64_t\<close> truncates towards zero.  Dividing by zero, and dividing
  \<open>INT64_MIN\<close> by \<open>-1\<close>, is undefined in C++ and traps on the hardware: \<open>None\<close>.
\<close>

definition div_int64 :: "int64 \<Rightarrow> int64 \<Rightarrow> int64 option" where
  "div_int64 a b =
     (if b = 0 \<or> (a = INT64_MIN \<and> b = - 1) then None
      else Some (word_of_int (sint a sdiv sint b)))"

text \<open>
  The value stored into \<open>m_audio_sync_ts\<close>:
  \<open>(uint32_t) (f->timestamp - frameRateDuration * schedSeq * 90000 / frameRateScale)\<close>,
  widened again to the 64 bits of the atomic.
\<close>

definition sync_ts_of :: "int64 \<Rightarrow> int64 \<Rightarrow> int64 \<Rightarrow> int64 \<Rightarrow> int64 option" where
  "sync_ts_of ts dur seq scale =
     map_option (\<lambda>q. ucast (ucast (ts - q) :: uint32)) (div_int64 (dur * seq * 90000) scale)"

text \<open>
  The body of the \<open>while\<close> loop for a frame \<open>f\<close> that is not dismissed, in three
  steps.  First \<open>lastSchedFrame\<close> is replaced by \<open>f\<close>, which gains a reference.
\<close>

definition keep_as_last :: "frame_ptr \<Rightarrow> state_decklink \<Rightarrow> state_decklink" where
  "keep_as_last f s = AddRef f ((release_lastSchedFrame s)\<lparr>lastSchedFrame := Some f\<rparr>)"

text \<open>Then the audio sync value is set if it is \<open>deinit\<close> or \<open>resync\<close> and \<open>f\<close> has a timestamp.\<close>

definition publish_sync_ts :: "frame_ptr \<Rightarrow> state_decklink \<Rightarrow> state_decklink option" where
  "publish_sync_ts f s =
     (if m_audio_sync_ts s \<le>s resync \<and> timestamp (frames s f) \<noteq> INT64_MIN
      then map_option (\<lambda>a. s\<lparr>m_audio_sync_ts := a\<rparr>)
             (sync_ts_of (timestamp (frames s f)) (frameRateDuration s) (schedSeq s)
                (frameRateScale s))
      else Some s)"

text \<open>Last the frame goes to the device and \<open>schedSeq\<close> is incremented.\<close>

definition schedule_video :: "frame_ptr \<Rightarrow> state_decklink \<Rightarrow> state_decklink" where
  "schedule_video f s =
     (call_device
        (ScheduleVideoFrame (Some f) (schedSeq s * frameRateDuration s)
           (frameRateDuration s) (frameRateScale s)) s)
       \<lparr>schedSeq := schedSeq s + 1\<rparr>"

text \<open>
  One pass of the \<open>while\<close> loop for the frame \<open>f\<close> just popped; \<open>i\<close> is the counter
  after \<open>++i\<close>.
\<close>

definition sched_frame :: "uint32 \<Rightarrow> frame_ptr \<Rightarrow> state_decklink \<Rightarrow> state_decklink option" where
  "sched_frame i f s =
     (if m_max_sched_frames s < i
      then Some (Release f (LOG (Dismissed_frame (i - 1)) s))
      else map_option (schedule_video f) (publish_sync_ts f (keep_as_last f s)))"

text \<open>
  The loop \<open>while (!schedFrames.empty())\<close>: the list argument is the content of
  \<open>schedFrames\<close>, which the loop body does not touch apart from the pop.
\<close>

fun sched_loop :: "uint32 \<Rightarrow> frame_ptr list \<Rightarrow> state_decklink \<Rightarrow> state_decklink option" where
  "sched_loop i [] s = Some s"
| "sched_loop i (f # q) s =
     (case sched_frame (i + 1) f (s\<lparr>schedFrames := q\<rparr>) of
        None \<Rightarrow> None
      | Some s' \<Rightarrow> sched_loop (i + 1) q s')"

text \<open>
  \<open>i\<close> is what \<open>GetBufferedVideoFrameCount\<close> reported.  The debug-level log line is left
  out.
\<close>

definition ScheduleNextFrame :: "uint32 \<Rightarrow> state_decklink \<Rightarrow> state_decklink option" where
  "ScheduleNextFrame i s =
     (if schedFrames s = [] then
        (if m_min_sched_frames s \<le> i then Some s
         else
           let s1 = (LOG Missing_frame s)\<lparr>m_audio_sync_ts := resync\<rparr>;
               s2 = call_device
                      (ScheduleVideoFrame (lastSchedFrame s1)
                         (schedSeq s1 * frameRateDuration s1)
                         (frameRateDuration s1) (frameRateScale s1)) s1
           in Some (s2\<lparr>schedSeq := schedSeq s2 + 1\<rparr>))
      else sched_loop i (schedFrames s) s)"

subsection \<open>\<open>PlaybackDelegate::ScheduledFrameCompleted\<close>\<close>

text \<open>
  The completion callback of the device, for a frame whose result is
  \<open>bmdOutputFrameCompleted\<close>: none of the three branches that count late, dropped and
  flushed frames is taken.  \<open>i\<close> is the count that \<open>GetBufferedVideoFrameCount\<close> reports
  inside \<open>ScheduleNextFrame\<close>.
\<close>

definition ScheduledFrameCompleted ::
  "uint32 \<Rightarrow> frame_ptr \<Rightarrow> state_decklink \<Rightarrow> state_decklink option" where
  "ScheduledFrameCompleted i completedFrame s =
     map_option (Release completedFrame) (ScheduleNextFrame i s)"

subsection \<open>\<open>PlaybackDelegate::Reset\<close> and \<open>PlaybackDelegate::ResetAudio\<close>\<close>

definition Reset :: "state_decklink \<Rightarrow> state_decklink" where
  "Reset s =
     (let s1 = release_lastSchedFrame s;
          s2 = fold Release (schedFrames s1) s1
      in s2\<lparr>schedFrames := [], schedSeq := 0\<rparr>)"

definition ResetAudio :: "state_decklink \<Rightarrow> state_decklink" where
  "ResetAudio s = s\<lparr>m_audio_sync_ts := deinit\<rparr>"

subsection \<open>\<open>PlaybackDelegate::ScheduleAudio\<close>\<close>

text \<open>\<open>x / 90000\<close> on \<open>int64_t\<close>: truncation towards zero, the divisor is not zero.\<close>

definition sdiv_int64 :: "int64 \<Rightarrow> int64 \<Rightarrow> int64" where
  "sdiv_int64 a b = word_of_int (sint a sdiv sint b)"

definition bmdAudioSampleRate48kHz :: int64 where "bmdAudioSampleRate48kHz = 48000"

text \<open>
  \<open>ts\<close> is \<open>frame->timestamp\<close> and \<open>samples\<close> the requested count \<open>*samples\<close>.  The device
  answers \<open>ScheduleAudioSamples\<close> with a result (\<open>ok\<close>) and the count it wrote, which
  replaces \<open>*samples\<close>; the function returns that count with the new state.
\<close>

text \<open>The second \<open>if\<close>: a newly published sync value becomes the baseline.\<close>

definition adopt_sync_ts :: "state_decklink \<Rightarrow> state_decklink" where
  "adopt_sync_ts s =
     (if saved_sync_ts s \<noteq> m_audio_sync_ts s \<and> resync <s m_audio_sync_ts s
      then s\<lparr>saved_sync_ts := m_audio_sync_ts s, last_sync_ts := m_audio_sync_ts s\<rparr>
      else s)"

text \<open>The third \<open>if\<close>, commented \<open>wrap-around\<close> in the source.\<close>

definition wrap_around :: "int64 \<Rightarrow> state_decklink \<Rightarrow> state_decklink" where
  "wrap_around ts s =
     (if ts <s last_sync_ts s then s\<lparr>last_sync_ts := last_sync_ts s - 2 ^ 32\<rparr> else s)"

definition ScheduleAudio ::
  "int64 \<Rightarrow> uint32 \<Rightarrow> bool \<times> uint32 \<Rightarrow> state_decklink \<Rightarrow> uint32 \<times> state_decklink" where
  "ScheduleAudio ts samples answer s =
     (if saved_sync_ts s = INT64_MIN \<and> m_audio_sync_ts s = deinit then (samples, s)
      else
        let s1 = wrap_around ts (adopt_sync_ts s);
            streamTime =
              sdiv_int64 ((ts - last_sync_ts s1) * bmdAudioSampleRate48kHz) 90000;
            s2 = call_device (ScheduleAudioSamples samples streamTime bmdAudioSampleRate48kHz) s1
        in (snd answer, if fst answer then s2 else LOG ScheduleAudioSamples_failed s2))"

subsection \<open>Frame allocation\<close>

text \<open>
  What the code takes from outside this file: the table \<open>uv_to_bmd_codec_map\<close>, the
  function \<open>vc_get_linesize\<close>, and the answers of the DeckLink device.  \<open>get_mode\<close> writes
  the frame rate of every mode of the right size through its two pointers, so it returns
  the two values with whether a mode was selected.
\<close>

record extern =
  uv_to_bmd_codec_map :: "nat \<Rightarrow> nat option"
  vc_get_linesize :: "nat \<Rightarrow> nat \<Rightarrow> int"
  get_mode :: "video_desc \<Rightarrow> bool \<Rightarrow> int64 \<times> int64 \<Rightarrow> bool \<times> int64 \<times> int64"
  DoesSupportVideoMode :: "bool option"
  EnableVideoOutput_ok :: bool
  EnableAudioOutput_ok :: bool
  StartScheduledPlayback_ok :: bool
  GetBufferedVideoFrameCount :: "device_call list \<Rightarrow> uint32"

text \<open>The constructor: \<open>ref = 1\<close> and \<open>timestamp = INT64_MIN\<close>.\<close>

definition DeckLinkFrame_Create ::
  "int \<Rightarrow> int \<Rightarrow> int \<Rightarrow> nat \<Rightarrow> state_decklink \<Rightarrow> frame_ptr \<times> state_decklink" where
  "DeckLinkFrame_Create w h rb pf s =
     (allocated s,
      s\<lparr>frames := (frames s)(allocated s :=
            \<lparr>width = w, height = h, rawBytes = rb, pixelFormat = pf, rightEye = None,
             ref = 1, timestamp = INT64_MIN\<rparr>),
        allocated := allocated s + 1\<rparr>)"

definition DeckLink3DFrame_Create ::
  "int \<Rightarrow> int \<Rightarrow> int \<Rightarrow> nat \<Rightarrow> state_decklink \<Rightarrow> frame_ptr \<times> state_decklink" where
  "DeckLink3DFrame_Create w h rb pf s =
     (let (p, s1) = DeckLinkFrame_Create w h rb pf s;
          (r, s2) = DeckLinkFrame_Create w h rb pf s1
      in (p, s2\<lparr>frames := (frames s2)(p := (frames s2 p)\<lparr>rightEye := Some r\<rparr>)\<rparr>))"

definition allocate_new_decklink_frame ::
  "extern \<Rightarrow> state_decklink \<Rightarrow> frame_ptr \<times> state_decklink" where
  "allocate_new_decklink_frame ex s =
     (let linesize = vc_get_linesize ex (vd_width (vid_desc s)) (color_spec (vid_desc s))
      in if stereo s
         then DeckLink3DFrame_Create (int (vd_width (vid_desc s))) (int (vd_height (vid_desc s)))
                linesize (s_pixelFormat s) s
         else DeckLinkFrame_Create (int (vd_width (vid_desc s))) (int (vd_height (vid_desc s)))
                linesize (s_pixelFormat s) s)"

subsection \<open>\<open>display_decklink_reconfigure\<close>\<close>

text \<open>
  The loop that fills the scheduler before playback starts; \<open>n\<close> is the number of passes
  left.  A failed \<open>assert(ret)\<close> aborts: \<open>None\<close>.
\<close>

fun prefill :: "nat \<Rightarrow> frame_ptr \<Rightarrow> extern \<Rightarrow> state_decklink \<Rightarrow> state_decklink option" where
  "prefill 0 f ex s = Some s"
| "prefill (Suc n) f ex s =
     (let (ret, s1) = EnqueueFrame f (AddRef f s)
      in if \<not> ret then None
         else case ScheduleNextFrame (GetBufferedVideoFrameCount ex (device_calls s1)) s1 of
                None \<Rightarrow> None
              | Some s2 \<Rightarrow> prefill n f ex s2)"

text \<open>The bound of that loop, in \<open>unsigned\<close> arithmetic.\<close>

definition prefill_count :: "state_decklink \<Rightarrow> nat" where
  "prefill_count s = unat ((m_min_sched_frames s + m_min_sched_frames s) div 2)"

text \<open>The part from \<open>if (!s->low_latency)\<close> to the end.\<close>

definition start_playback :: "extern \<Rightarrow> state_decklink \<Rightarrow> (bool \<times> state_decklink) option" where
  "start_playback ex s =
     (if \<not> low_latency s then
        let (f, s1) = allocate_new_decklink_frame ex
                        (call_device (SetScheduledFrameCompletionCallback True) s)
        in case prefill (prefill_count s1) f ex s1 of
             None \<Rightarrow> None
           | Some s2 \<Rightarrow>
               let s3 = call_device StartScheduledPlayback (Release f s2)
               in if \<not> StartScheduledPlayback_ok ex
                  then Some (False, call_device DisableVideoOutput
                                      (LOG StartScheduledPlayback_failed s3))
                  else Some (True, s3\<lparr>initialized := True, audio_reconfigure := False\<rparr>)
      else Some (True, s\<lparr>initialized := True, audio_reconfigure := False\<rparr>))"

text \<open>The part that stops a running output, under \<open>if (s->initialized)\<close>.\<close>

definition stop_output :: "state_decklink \<Rightarrow> state_decklink" where
  "stop_output s =
     (if initialized s then
        let s1 = (if \<not> low_latency s then call_device StopScheduledPlayback s else s);
            s2 = call_device DisableVideoOutput
                   (call_device (SetScheduledFrameCompletionCallback False) s1);
            s3 = (if play_audio s2 then call_device DisableAudioOutput s2 else s2)
        in s3\<lparr>initialized := False\<rparr>
      else s)"

text \<open>From \<open>DoesSupportVideoMode\<close> on.\<close>

definition enable_output :: "extern \<Rightarrow> state_decklink \<Rightarrow> (bool \<times> state_decklink) option" where
  "enable_output ex s =
     (case DoesSupportVideoMode ex of
        None \<Rightarrow> Some (False, LOG Mode_check_failed s)
      | Some supported \<Rightarrow>
          if \<not> supported then Some (False, LOG Mode_not_supported s)
          else
            let s1 = call_device EnableVideoOutput s
            in if \<not> EnableVideoOutput_ok ex
               then Some (False, LOG EnableVideoOutput_failed s1)
               else if play_audio s1 \<and> \<not> EnableAudioOutput_ok ex
               then Some (False, LOG EnableAudioOutput_failed
                                   (call_device EnableAudioOutput s1))
               else start_playback ex
                      (if play_audio s1 then call_device EnableAudioOutput s1 else s1))"

text \<open>
  The writes of device configuration options between the steps are left out: they do not
  reach the state modelled here.
\<close>

definition display_decklink_reconfigure ::
  "extern \<Rightarrow> video_desc \<Rightarrow> state_decklink \<Rightarrow> (bool \<times> state_decklink) option" where
  "display_decklink_reconfigure ex desc s =
     (let s1 = Reset (stop_output ((ResetAudio s)\<lparr>vid_desc := desc\<rparr>))
      in case uv_to_bmd_codec_map ex (color_spec desc) of
           None \<Rightarrow> Some (False, LOG Unsupported_pixel_format s1)
         | Some pf \<Rightarrow>
             let s2 = s1\<lparr>s_pixelFormat := pf\<rparr>;
                 s3 = (if tile_count desc \<le> 2 \<and> tile_count desc \<noteq> (if stereo s2 then 2 else 1)
                       then (LOG Stereo_toggled s2)\<lparr>stereo := \<not> stereo s2\<rparr>
                       else s2)
             in if stereo s3 \<and> tile_count desc \<noteq> 2
                then Some (False, LOG Stereo_tile_count s3)
                else
                  let (found, dur, scale) =
                        get_mode ex desc (stereo s3) (frameRateDuration s3, frameRateScale s3);
                      s4 = s3\<lparr>frameRateDuration := dur, frameRateScale := scale\<rparr>
                  in if \<not> found then Some (False, LOG No_video_mode s4)
                     else enable_output ex s4)"

subsection \<open>\<open>display_decklink_getf\<close> and \<open>display_decklink_putf\<close>\<close>

text \<open>The test that sends a pooled frame away instead of reusing it.\<close>

definition frame_mismatch :: "int \<Rightarrow> state_decklink \<Rightarrow> frame_ptr \<Rightarrow> bool" where
  "frame_mismatch linesize s tmp =
     ((stereo s \<and> rightEye (frames s tmp) = None)
      \<or> width (frames s tmp) \<noteq> int (vd_width (vid_desc s))
      \<or> height (frames s tmp) \<noteq> int (vd_height (vid_desc s))
      \<or> rawBytes (frames s tmp) \<noteq> linesize
      \<or> pixelFormat (frames s tmp) \<noteq> s_pixelFormat s)"

text \<open>
  The loop over \<open>buffer_pool.frame_queue\<close>.  \<open>Release\<close> can push onto the queue being
  read, so the loop reads the queue from the state at every pass.
\<close>

partial_function (option) pool_loop ::
  "int \<Rightarrow> state_decklink \<Rightarrow> (frame_ptr option \<times> state_decklink) option" where
  "pool_loop linesize s =
     (case frame_queue s of
        [] \<Rightarrow> Some (None, s)
      | tmp # q \<Rightarrow>
          if frame_mismatch linesize s tmp
          then pool_loop linesize (Release tmp (s\<lparr>frame_queue := q\<rparr>))
          else Some (Some tmp, AddRef tmp (s\<lparr>frame_queue := q\<rparr>)))"

declare pool_loop.simps [code]

text \<open>
  From \<open>vf_alloc_desc\<close> on.  The result is the \<open>DeckLinkFrame\<close> that the returned
  \<open>video_frame\<close> carries in \<open>dispose_udata\<close>.  In stereo mode a frame without a right eye
  fails the \<open>assert\<close>.
\<close>

definition take_frame ::
  "extern \<Rightarrow> state_decklink \<Rightarrow> (frame_ptr option \<times> state_decklink) option" where
  "take_frame ex s =
     (let linesize = vc_get_linesize ex (vd_width (vid_desc s)) (color_spec (vid_desc s))
      in case pool_loop linesize s of
           None \<Rightarrow> None
         | Some (found, s1) \<Rightarrow>
             let (deckLinkFrame, s2) =
                   (case found of
                      None \<Rightarrow> allocate_new_decklink_frame ex s1
                    | Some f \<Rightarrow> (f, s1))
             in if stereo s2
                then (case rightEye (frames s2 deckLinkFrame) of
                        None \<Rightarrow> None
                      | Some r \<Rightarrow> Some (Some deckLinkFrame, Release r (AddRef r s2)))
                else Some (Some deckLinkFrame, s2))"

definition display_decklink_getf ::
  "extern \<Rightarrow> state_decklink \<Rightarrow> (frame_ptr option \<times> state_decklink) option" where
  "display_decklink_getf ex s =
     (if \<not> initialized s then Some (None, s)
      else if audio_reconfigure s then
        (case display_decklink_reconfigure ex (vid_desc s) s of
           None \<Rightarrow> None
         | Some (ok, s1) \<Rightarrow>
             if \<not> ok then Some (None, s1)
             else take_frame ex (s1\<lparr>audio_reconfigure := False\<rparr>))
      else take_frame ex s)"

text \<open>
  \<open>frame\<close> is the \<open>DeckLinkFrame\<close> of the submitted \<open>video_frame\<close> with its timestamp, or
  \<open>None\<close> for a null pointer.  Timecode and the R10k range conversion are left out.
\<close>

definition display_decklink_putf ::
  "(frame_ptr \<times> int64) option \<Rightarrow> state_decklink \<Rightarrow> bool \<times> state_decklink" where
  "display_decklink_putf frame s =
     (case frame of
        None \<Rightarrow> (True, s)
      | Some (deckLinkFrame, ts) \<Rightarrow>
          if low_latency s
          then (True, Release deckLinkFrame (call_device (DisplayVideoFrameSync deckLinkFrame) s))
          else EnqueueFrame deckLinkFrame
                 (s\<lparr>frames := (frames s)(deckLinkFrame :=
                       (frames s deckLinkFrame)\<lparr>timestamp := ts\<rparr>)\<rparr>))"

subsection \<open>The state after \<open>display_decklink_init\<close>\<close>

text \<open>
  The member initialisers of \<open>state_decklink\<close> and \<open>PlaybackDelegate\<close>; \<open>sync\<close> tells
  whether the option \<open>synchronized\<close> was given, which clears \<open>low_latency\<close>.
\<close>

definition init_state :: "bool \<Rightarrow> state_decklink" where
  "init_state sync =
     \<lparr>frames = (\<lambda>_. \<lparr>width = 0, height = 0, rawBytes = 0, pixelFormat = 0, rightEye = None,
                     ref = 0, timestamp = INT64_MIN\<rparr>),
      allocated = 0, frame_queue = [], schedFrames = [], lastSchedFrame = None,
      schedSeq = 0, m_audio_sync_ts = deinit, saved_sync_ts = INT64_MIN,
      last_sync_ts = INT64_MIN, m_min_sched_frames = DEFAULT_MIN_SCHED_FRAMES,
      m_max_sched_frames = DEFAULT_MAX_SCHED_FRAMES, frameRateDuration = 0,
      frameRateScale = 0,
      vid_desc = \<lparr>vd_width = 0, vd_height = 0, color_spec = 0, tile_count = 0\<rparr>,
      stereo = False, initialized = False, play_audio = False, s_pixelFormat = 0,
      low_latency = (\<not> sync), audio_reconfigure = False, device_calls = [], logged = []\<rparr>"

section \<open>Invariants of the buffer pool\<close>

text \<open>
  The free list holds each frame at most once, and only allocated frames whose reference
  count is 0.
\<close>

definition pool_inv :: "state_decklink \<Rightarrow> bool" where
  "pool_inv s \<longleftrightarrow>
     distinct (frame_queue s) \<and>
     (\<forall>p \<in> set (frame_queue s). p < allocated s \<and> ref (frames s p) = 0)"

text \<open>
  The comment on \<open>DeckLink3DFrame::rightEye\<close>: the right eye's reference count is always
  at least 1, so the frame is deleted by its owner.
\<close>

definition right_eyes_held :: "state_decklink \<Rightarrow> bool" where
  "right_eyes_held s \<longleftrightarrow>
     (\<forall>p \<in> set [0..<allocated s].
        case rightEye (frames s p) of
          None \<Rightarrow> True
        | Some r \<Rightarrow> r < allocated s \<and> ref (frames s r) \<noteq> 0)"

definition is_right_eye :: "state_decklink \<Rightarrow> frame_ptr \<Rightarrow> bool" where
  "is_right_eye s r \<longleftrightarrow> (\<exists>p \<in> set [0..<allocated s]. rightEye (frames s p) = Some r)"

section \<open>Sequences of calls\<close>

text \<open>
  The producer submitting a list of frames, each with its timestamp, through
  \<open>display_decklink_putf\<close>, with no other call in between; the results are collected in
  call order.
\<close>

fun submit_frames ::
  "(frame_ptr \<times> int64) list \<Rightarrow> state_decklink \<Rightarrow> bool list \<times> state_decklink" where
  "submit_frames [] s = ([], s)"
| "submit_frames (x # xs) s =
     (let (r, s1) = display_decklink_putf (Some x) s;
          (rs, s2) = submit_frames xs s1
      in (r # rs, s2))"

text \<open>
  The scenario of the specification: scheduled mode after a reconfiguration to 1920x1080
  with a frame duration of 1/50 s, the default limits of 4 and 6 frames, and frames with
  one reference each, as \<open>display_decklink_getf\<close> hands them out.  The producer submits
  eight of them, with timestamps 1800 ticks apart.
\<close>

definition scenario_state :: state_decklink where
  "scenario_state =
     (init_state True)
       \<lparr>frames := (\<lambda>_. \<lparr>width = 1920, height = 1080, rawBytes = 3840, pixelFormat = 0,
                          rightEye = None, ref = 1, timestamp = INT64_MIN\<rparr>),
        allocated := 8, frameRateDuration := 1, frameRateScale := 50,
        vid_desc := \<lparr>vd_width = 1920, vd_height = 1080, color_spec = 0, tile_count = 1\<rparr>,
        initialized := True\<rparr>"

definition scenario_frames :: "(frame_ptr \<times> int64) list" where
  "scenario_frames =
     [(0, 1000), (1, 2800), (2, 4600), (3, 6400), (4, 8200), (5, 10000), (6, 11800),
      (7, 13600)]"

text \<open>
  The anchor as the specification words it, on unbounded integers:
  \<open>timestamp - frameDuration * sequence * (mediaClockRate / frameRateScale)\<close> with the
  media clock rate 90000.
\<close>

definition claimed_anchor :: "int \<Rightarrow> int \<Rightarrow> int \<Rightarrow> int \<Rightarrow> int" where
  "claimed_anchor ts dur seq scale = ts - dur * seq * (90000 div scale)"

text \<open>
  The scenario after an underrun: the sync value is \<open>resync\<close>, one slot has been used, and
  the producer submits frame 0 with the timestamp 1000.
\<close>

definition resync_state :: state_decklink where
  "resync_state =
     snd (submit_frames [(0, 1000)]
            (scenario_state\<lparr>schedSeq := 1, m_audio_sync_ts := resync\<rparr>))"

text \<open>
  The references of the scheduler: every frame in \<open>schedFrames\<close> or in \<open>lastSchedFrame\<close>
  is allocated, is no right eye, and its count covers the references held there.
\<close>

definition held_by_scheduler :: "state_decklink \<Rightarrow> frame_ptr list" where
  "held_by_scheduler s =
     (case lastSchedFrame s of None \<Rightarrow> [] | Some l \<Rightarrow> [l]) @ schedFrames s"

definition held_refs :: "state_decklink \<Rightarrow> bool" where
  "held_refs s \<longleftrightarrow>
     (\<forall>p \<in> set (held_by_scheduler s).
        p < allocated s \<and> \<not> is_right_eye s p \<and>
        count_list (held_by_scheduler s) p \<le> unat (ref (frames s p)))"

text \<open>
  A run of the scheduled output: the producer submits a frame with its timestamp, or the
  device's completion callback calls \<open>ScheduleNextFrame\<close> while the device reports the
  given number of buffered frames.  \<open>None\<close> is a run that trapped.
\<close>

datatype event = Submit frame_ptr int64 | Completed uint32

fun run :: "event list \<Rightarrow> state_decklink \<Rightarrow> state_decklink option" where
  "run [] s = Some s"
| "run (Submit f ts # es) s = run es (snd (display_decklink_putf (Some (f, ts)) s))"
| "run (Completed i # es) s =
     (case ScheduleNextFrame i s of None \<Rightarrow> None | Some s' \<Rightarrow> run es s')"

text \<open>The frames submitted in a run, and the frames passed to \<open>ScheduleVideoFrame\<close> in a trace.\<close>

fun submitted :: "event list \<Rightarrow> frame_ptr list" where
  "submitted [] = []"
| "submitted (Submit f ts # es) = f # submitted es"
| "submitted (Completed i # es) = submitted es"

fun video_frames :: "device_call list \<Rightarrow> frame_ptr option list" where
  "video_frames [] = []"
| "video_frames (ScheduleVideoFrame f t d sc # cs) = f # video_frames cs"
| "video_frames (c # cs) = video_frames cs"

text \<open>
  A device for the scenario: it accepts every request, selects the mode with a frame
  duration of 1/50 s, and reports as buffered the frames scheduled so far (none is played
  before playback starts).
\<close>

fun is_ScheduleVideoFrame :: "device_call \<Rightarrow> bool" where
  "is_ScheduleVideoFrame (ScheduleVideoFrame f t d sc) = True"
| "is_ScheduleVideoFrame c = False"

definition scenario_device :: extern where
  "scenario_device =
     \<lparr>uv_to_bmd_codec_map = (\<lambda>c. Some c),
      vc_get_linesize = (\<lambda>w c. 2 * int w),
      get_mode = (\<lambda>desc st rate. (True, 1, 50)),
      DoesSupportVideoMode = Some True,
      EnableVideoOutput_ok = True, EnableAudioOutput_ok = True,
      StartScheduledPlayback_ok = True,
      GetBufferedVideoFrameCount = (\<lambda>calls. of_nat (length (filter is_ScheduleVideoFrame calls)))\<rparr>"

definition scenario_desc :: video_desc where
  "scenario_desc = \<lparr>vd_width = 1920, vd_height = 1080, color_spec = 0, tile_count = 1\<rparr>"





text \<open>
  A session in scheduled mode right after its first reconfiguration with the default
  limits: the device holds the four pre-filled instances of frame 0.
\<close>

definition reconfigured_state :: state_decklink where
  "reconfigured_state =
     (case display_decklink_reconfigure scenario_device scenario_desc (init_state True) of
        None \<Rightarrow> init_state True
      | Some (ok, s) \<Rightarrow> s)"

text \<open>
  \<open>n\<close> completions in a row of frame \<open>f\<close>, the device reporting \<open>i\<close> buffered frames at
  each of them, and no frame from the producer in between.
\<close>

fun completions ::
  "nat \<Rightarrow> uint32 \<Rightarrow> frame_ptr \<Rightarrow> state_decklink \<Rightarrow> state_decklink option" where
  "completions 0 i f s = Some s"
| "completions (Suc n) i f s =
     (case ScheduledFrameCompleted i f s of
        None \<Rightarrow> None
      | Some s' \<Rightarrow> completions n i f s')"

text \<open>What the scenarios below observe of frame 0.\<close>

definition frame0_view ::
  "state_decklink \<Rightarrow> frame_ptr list \<times> uint32 \<times> frame_ptr option \<times> nat" where
  "frame0_view s =
     (frame_queue s, ref (frames s 0), lastSchedFrame s,
      length (filter is_ScheduleVideoFrame (device_calls s)))"

text \<open>
  How many of \<open>N\<close> queued frames a drain sends to the device when the device reports
  \<open>i\<close> buffered frames and the limit is \<open>maxf\<close>: the room left below the limit.
\<close>

definition n_scheduled :: "uint32 \<Rightarrow> uint32 \<Rightarrow> nat \<Rightarrow> nat" where
  "n_scheduled maxf i N = min (unat maxf - unat i) N"

section \<open>What the helpers leave alone\<close>

lemma LOG_fields [simp]:
  "frames (LOG m s) = frames s" "allocated (LOG m s) = allocated s"
  "frame_queue (LOG m s) = frame_queue s" "schedFrames (LOG m s) = schedFrames s"
  "lastSchedFrame (LOG m s) = lastSchedFrame s" "schedSeq (LOG m s) = schedSeq s"
  "m_audio_sync_ts (LOG m s) = m_audio_sync_ts s" "saved_sync_ts (LOG m s) = saved_sync_ts s"
  "last_sync_ts (LOG m s) = last_sync_ts s"
  "m_min_sched_frames (LOG m s) = m_min_sched_frames s"
  "m_max_sched_frames (LOG m s) = m_max_sched_frames s"
  "frameRateDuration (LOG m s) = frameRateDuration s"
  "frameRateScale (LOG m s) = frameRateScale s" "vid_desc (LOG m s) = vid_desc s"
  "stereo (LOG m s) = stereo s" "initialized (LOG m s) = initialized s"
  "play_audio (LOG m s) = play_audio s" "s_pixelFormat (LOG m s) = s_pixelFormat s"
  "low_latency (LOG m s) = low_latency s" "audio_reconfigure (LOG m s) = audio_reconfigure s"
  "device_calls (LOG m s) = device_calls s" "logged (LOG m s) = logged s @ [m]"
  by (simp_all add: LOG_def)

lemma call_device_fields [simp]:
  "frames (call_device c s) = frames s" "allocated (call_device c s) = allocated s"
  "frame_queue (call_device c s) = frame_queue s" "schedFrames (call_device c s) = schedFrames s"
  "lastSchedFrame (call_device c s) = lastSchedFrame s" "schedSeq (call_device c s) = schedSeq s"
  "m_audio_sync_ts (call_device c s) = m_audio_sync_ts s"
  "saved_sync_ts (call_device c s) = saved_sync_ts s"
  "last_sync_ts (call_device c s) = last_sync_ts s"
  "m_min_sched_frames (call_device c s) = m_min_sched_frames s"
  "m_max_sched_frames (call_device c s) = m_max_sched_frames s"
  "frameRateDuration (call_device c s) = frameRateDuration s"
  "frameRateScale (call_device c s) = frameRateScale s" "vid_desc (call_device c s) = vid_desc s"
  "stereo (call_device c s) = stereo s" "initialized (call_device c s) = initialized s"
  "play_audio (call_device c s) = play_audio s" "s_pixelFormat (call_device c s) = s_pixelFormat s"
  "low_latency (call_device c s) = low_latency s"
  "audio_reconfigure (call_device c s) = audio_reconfigure s"
  "device_calls (call_device c s) = device_calls s @ [c]" "logged (call_device c s) = logged s"
  by (simp_all add: call_device_def)

lemma AddRef_fields [simp]:
  "allocated (AddRef p s) = allocated s"
  "frame_queue (AddRef p s) = frame_queue s" "schedFrames (AddRef p s) = schedFrames s"
  "lastSchedFrame (AddRef p s) = lastSchedFrame s" "schedSeq (AddRef p s) = schedSeq s"
  "m_audio_sync_ts (AddRef p s) = m_audio_sync_ts s"
  "saved_sync_ts (AddRef p s) = saved_sync_ts s"
  "last_sync_ts (AddRef p s) = last_sync_ts s"
  "m_min_sched_frames (AddRef p s) = m_min_sched_frames s"
  "m_max_sched_frames (AddRef p s) = m_max_sched_frames s"
  "frameRateDuration (AddRef p s) = frameRateDuration s"
  "frameRateScale (AddRef p s) = frameRateScale s" "vid_desc (AddRef p s) = vid_desc s"
  "stereo (AddRef p s) = stereo s" "initialized (AddRef p s) = initialized s"
  "play_audio (AddRef p s) = play_audio s" "s_pixelFormat (AddRef p s) = s_pixelFormat s"
  "low_latency (AddRef p s) = low_latency s"
  "audio_reconfigure (AddRef p s) = audio_reconfigure s"
  "device_calls (AddRef p s) = device_calls s" "logged (AddRef p s) = logged s"
  by (simp_all add: AddRef_def)

lemma Release_fields [simp]:
  "allocated (Release p s) = allocated s"
  "schedFrames (Release p s) = schedFrames s"
  "lastSchedFrame (Release p s) = lastSchedFrame s" "schedSeq (Release p s) = schedSeq s"
  "m_audio_sync_ts (Release p s) = m_audio_sync_ts s"
  "saved_sync_ts (Release p s) = saved_sync_ts s"
  "last_sync_ts (Release p s) = last_sync_ts s"
  "m_min_sched_frames (Release p s) = m_min_sched_frames s"
  "m_max_sched_frames (Release p s) = m_max_sched_frames s"
  "frameRateDuration (Release p s) = frameRateDuration s"
  "frameRateScale (Release p s) = frameRateScale s" "vid_desc (Release p s) = vid_desc s"
  "stereo (Release p s) = stereo s" "initialized (Release p s) = initialized s"
  "play_audio (Release p s) = play_audio s" "s_pixelFormat (Release p s) = s_pixelFormat s"
  "low_latency (Release p s) = low_latency s"
  "audio_reconfigure (Release p s) = audio_reconfigure s"
  "device_calls (Release p s) = device_calls s" "logged (Release p s) = logged s"
  by (simp_all add: Release_def Let_def)

lemma AddRef_frames:
  "frames (AddRef p s) q =
     (if q = p then (frames s p)\<lparr>ref := ref (frames s p) + 1\<rparr> else frames s q)"
  by (simp add: AddRef_def)

lemma Release_frames:
  "frames (Release p s) q =
     (if q = p then (frames s p)\<lparr>ref := ref (frames s p) - 1\<rparr> else frames s q)"
  by (simp add: Release_def Let_def)

lemma Release_frame_queue:
  "frame_queue (Release p s) =
     (if ref (frames s p) = 1 then frame_queue s @ [p] else frame_queue s)"
  by (simp add: Release_def Let_def)

lemma release_lastSchedFrame_fields [simp]:
  "allocated (release_lastSchedFrame s) = allocated s"
  "schedFrames (release_lastSchedFrame s) = schedFrames s"
  "schedSeq (release_lastSchedFrame s) = schedSeq s"
  "m_audio_sync_ts (release_lastSchedFrame s) = m_audio_sync_ts s"
  "saved_sync_ts (release_lastSchedFrame s) = saved_sync_ts s"
  "last_sync_ts (release_lastSchedFrame s) = last_sync_ts s"
  "m_min_sched_frames (release_lastSchedFrame s) = m_min_sched_frames s"
  "m_max_sched_frames (release_lastSchedFrame s) = m_max_sched_frames s"
  "frameRateDuration (release_lastSchedFrame s) = frameRateDuration s"
  "frameRateScale (release_lastSchedFrame s) = frameRateScale s"
  "vid_desc (release_lastSchedFrame s) = vid_desc s"
  "stereo (release_lastSchedFrame s) = stereo s"
  "initialized (release_lastSchedFrame s) = initialized s"
  "play_audio (release_lastSchedFrame s) = play_audio s"
  "s_pixelFormat (release_lastSchedFrame s) = s_pixelFormat s"
  "low_latency (release_lastSchedFrame s) = low_latency s"
  "audio_reconfigure (release_lastSchedFrame s) = audio_reconfigure s"
  "device_calls (release_lastSchedFrame s) = device_calls s"
  "logged (release_lastSchedFrame s) = logged s"
  "lastSchedFrame (release_lastSchedFrame s) = None"
  by (simp_all add: release_lastSchedFrame_def split: option.splits)

lemma keep_as_last_fields [simp]:
  "allocated (keep_as_last f s) = allocated s"
  "schedFrames (keep_as_last f s) = schedFrames s"
  "schedSeq (keep_as_last f s) = schedSeq s"
  "m_audio_sync_ts (keep_as_last f s) = m_audio_sync_ts s"
  "saved_sync_ts (keep_as_last f s) = saved_sync_ts s"
  "last_sync_ts (keep_as_last f s) = last_sync_ts s"
  "m_min_sched_frames (keep_as_last f s) = m_min_sched_frames s"
  "m_max_sched_frames (keep_as_last f s) = m_max_sched_frames s"
  "frameRateDuration (keep_as_last f s) = frameRateDuration s"
  "frameRateScale (keep_as_last f s) = frameRateScale s"
  "vid_desc (keep_as_last f s) = vid_desc s"
  "stereo (keep_as_last f s) = stereo s"
  "initialized (keep_as_last f s) = initialized s"
  "play_audio (keep_as_last f s) = play_audio s"
  "s_pixelFormat (keep_as_last f s) = s_pixelFormat s"
  "low_latency (keep_as_last f s) = low_latency s"
  "audio_reconfigure (keep_as_last f s) = audio_reconfigure s"
  "device_calls (keep_as_last f s) = device_calls s"
  "logged (keep_as_last f s) = logged s"
  "lastSchedFrame (keep_as_last f s) = Some f"
  by (simp_all add: keep_as_last_def)

lemma schedule_video_fields [simp]:
  "frames (schedule_video f s) = frames s"
  "frame_queue (schedule_video f s) = frame_queue s"
  "allocated (schedule_video f s) = allocated s"
  "schedFrames (schedule_video f s) = schedFrames s"
  "schedSeq (schedule_video f s) = schedSeq s + 1"
  "m_audio_sync_ts (schedule_video f s) = m_audio_sync_ts s"
  "saved_sync_ts (schedule_video f s) = saved_sync_ts s"
  "last_sync_ts (schedule_video f s) = last_sync_ts s"
  "m_min_sched_frames (schedule_video f s) = m_min_sched_frames s"
  "m_max_sched_frames (schedule_video f s) = m_max_sched_frames s"
  "frameRateDuration (schedule_video f s) = frameRateDuration s"
  "frameRateScale (schedule_video f s) = frameRateScale s"
  "vid_desc (schedule_video f s) = vid_desc s"
  "stereo (schedule_video f s) = stereo s"
  "initialized (schedule_video f s) = initialized s"
  "play_audio (schedule_video f s) = play_audio s"
  "s_pixelFormat (schedule_video f s) = s_pixelFormat s"
  "low_latency (schedule_video f s) = low_latency s"
  "audio_reconfigure (schedule_video f s) = audio_reconfigure s"
  "device_calls (schedule_video f s) = device_calls s @
     [ScheduleVideoFrame (Some f) (schedSeq s * frameRateDuration s)
        (frameRateDuration s) (frameRateScale s)]"
  "logged (schedule_video f s) = logged s"
  "lastSchedFrame (schedule_video f s) = lastSchedFrame s"
  by (simp_all add: schedule_video_def)

lemma div_int64_positive:
  assumes "0 <s b"
  shows "div_int64 a b = Some (sdiv_int64 a b)"
proof -
  from assms have "0 < sint b" by (simp add: word_sless_alt)
  then have "b \<noteq> 0" "b \<noteq> - 1" by auto
  then show ?thesis by (simp add: div_int64_def sdiv_int64_def)
qed

lemma publish_sync_ts_positive:
  assumes "0 <s frameRateScale s"
  shows "publish_sync_ts f s =
     Some (if m_audio_sync_ts s \<le>s resync \<and> timestamp (frames s f) \<noteq> INT64_MIN
           then s\<lparr>m_audio_sync_ts :=
                   ucast (ucast (timestamp (frames s f) -
                      sdiv_int64 (frameRateDuration s * schedSeq s * 90000) (frameRateScale s))
                    :: uint32)\<rparr>
           else s)"
  using assms by (simp add: publish_sync_ts_def sync_ts_of_def div_int64_positive)

lemma publish_sync_ts_fields:
  assumes "publish_sync_ts f s = Some s'"
  shows "frames s' = frames s" "frame_queue s' = frame_queue s" "allocated s' = allocated s"
    "schedFrames s' = schedFrames s" "schedSeq s' = schedSeq s"
    "saved_sync_ts s' = saved_sync_ts s" "last_sync_ts s' = last_sync_ts s"
    "m_min_sched_frames s' = m_min_sched_frames s" "m_max_sched_frames s' = m_max_sched_frames s"
    "frameRateDuration s' = frameRateDuration s" "frameRateScale s' = frameRateScale s"
    "vid_desc s' = vid_desc s" "stereo s' = stereo s" "initialized s' = initialized s"
    "play_audio s' = play_audio s" "s_pixelFormat s' = s_pixelFormat s"
    "low_latency s' = low_latency s" "audio_reconfigure s' = audio_reconfigure s"
    "device_calls s' = device_calls s" "logged s' = logged s"
    "lastSchedFrame s' = lastSchedFrame s"
  using assms by (auto simp: publish_sync_ts_def split: if_splits)


section \<open>The scheduler with an empty queue\<close>

text \<open>
  C3.  \<open>ScheduleNextFrame\<close> with an empty queue: when the device reports at least
  \<open>m_min_sched_frames\<close> buffered frames the state stays as it is and the device is not
  called; below that, the last scheduled frame is submitted once more at the time
  \<open>schedSeq * frameRateDuration\<close>, \<open>schedSeq\<close> grows by one, the audio sync value becomes
  \<open>resync\<close> and one "Missing frame" warning is logged, and nothing else changes.
\<close>

theorem empty_queue_repeats_last_frame:
  assumes "schedFrames s = []"
  shows "(m_min_sched_frames s \<le> i \<longrightarrow> ScheduleNextFrame i s = Some s) \<and>
         (i < m_min_sched_frames s \<longrightarrow>
            ScheduleNextFrame i s =
              Some (s\<lparr>schedSeq := schedSeq s + 1,
                      m_audio_sync_ts := resync,
                      device_calls := device_calls s @
                        [ScheduleVideoFrame (lastSchedFrame s)
                           (schedSeq s * frameRateDuration s)
                           (frameRateDuration s) (frameRateScale s)],
                      logged := logged s @ [Missing_frame]\<rparr>))"
  using assms by (simp add: ScheduleNextFrame_def LOG_def call_device_def Let_def not_le)

theorem empty_queue_repeats_last_frame_witness:
  "schedFrames (init_state True) = [] \<and>
   m_min_sched_frames (init_state True) \<le> 4 \<and>
   ScheduleNextFrame 4 (init_state True) = Some (init_state True) \<and>
   3 < m_min_sched_frames (init_state True) \<and>
   (\<exists>s'. ScheduleNextFrame 3 (init_state True) = Some s' \<and>
         schedSeq s' = 1 \<and> m_audio_sync_ts s' = resync \<and>
         device_calls s' = [ScheduleVideoFrame None 0 0 0] \<and>
         logged s' = [Missing_frame])"
  using empty_queue_repeats_last_frame [of "init_state True" 4]
        empty_queue_repeats_last_frame [of "init_state True" 3]
  by (simp add: init_state_def DEFAULT_MIN_SCHED_FRAMES_def)

section \<open>Signed 64-bit arithmetic without overflow\<close>

lemma sint_sdiv_int64:
  assumes "\<not> (sint a = - (2 ^ 63) \<and> sint b = - 1)"
  shows "sint (sdiv_int64 a b) = sint a sdiv sint b"
proof -
  have r: "- (2 ^ 63) \<le> sint a" "sint a < 2 ^ 63"
    using sint_ge [of a] sint_lt [of a] by simp_all
  have rng: "- \<bar>sint a\<bar> \<le> sint a sdiv sint b" "sint a sdiv sint b \<le> \<bar>sint a\<bar>"
    using sdiv_int_range [of "sint a" "sint b"] by simp_all
  have lo: "- (2 ^ 63) \<le> sint a sdiv sint b"
    using rng r by linarith
  have "sint a sdiv sint b \<noteq> 2 ^ 63"
  proof
    assume e: "sint a sdiv sint b = 2 ^ 63"
    with rng r have k: "sint a = - (2 ^ 63)" by linarith
    then have "sint a \<noteq> 0" "sint a sdiv sint b = - sint a" using e by simp_all
    then have "sint b = - 1" by simp
    with k assms show False by simp
  qed
  then have hi: "sint a sdiv sint b < 2 ^ 63"
    using rng r by linarith
  have "signed_take_bit (63::nat) (sint a sdiv sint b) = sint a sdiv sint b"
    by (rule signed_take_bit_int_eq_self) (use lo hi in simp_all)
  then show ?thesis
    unfolding sdiv_int64_def by (simp add: sint_sbintrunc')
qed

lemma sint_sub_small:
  fixes a b :: int64
  assumes "- (2 ^ 63) \<le> sint a - sint b" "sint a - sint b < 2 ^ 63"
  shows "sint (a - b) = sint a - sint b"
  using assms by (simp add: sint_word_ariths signed_take_bit_int_eq_self)

lemma sint_mul_small:
  fixes a b :: int64
  assumes "- (2 ^ 63) \<le> sint a * sint b" "sint a * sint b < 2 ^ 63"
  shows "sint (a * b) = sint a * sint b"
  using assms by (simp add: sint_word_ariths signed_take_bit_int_eq_self)

section \<open>The audio path\<close>

text \<open>
  C9.  With \<open>saved_sync_ts\<close> still \<open>INT64_MIN\<close> and the published sync value \<open>deinit\<close>,
  \<open>ScheduleAudio\<close> returns at once: the state, with its sync values and the trace of device
  calls, is the one it was given, and the sample count is the requested one, untouched by
  the device.
\<close>

theorem audio_discarded_before_first_sync:
  assumes "saved_sync_ts s = INT64_MIN" and "m_audio_sync_ts s = deinit"
  shows "ScheduleAudio ts samples answer s = (samples, s)"
  using assms by (simp add: ScheduleAudio_def)

theorem audio_discarded_before_first_sync_witness:
  "saved_sync_ts (init_state True) = INT64_MIN \<and>
   m_audio_sync_ts (init_state True) = deinit \<and>
   ScheduleAudio 1000 960 (True, 960) (init_state True) = (960, init_state True)"
  using audio_discarded_before_first_sync [of "init_state True" 1000 960 "(True, 960)"]
  by (simp add: init_state_def)

lemma wrap_around_delta:
  fixes ts B :: int64
  assumes "0 \<le> sint ts" "sint ts < 2 ^ 32" "0 \<le> sint B" "sint B < 2 ^ 32"
  shows "sint (ts - (if ts <s B then B - 2 ^ 32 else B)) =
           (if sint ts < sint B then sint ts - sint B + 2 ^ 32 else sint ts - sint B)"
proof -
  have b: "sint (B - 2 ^ 32) = sint B - 2 ^ 32"
    using assms by (subst sint_sub_small) simp_all
  show ?thesis
    using assms b by (simp add: word_sless_alt sint_sub_small)
qed

lemma stream_time_int:
  fixes d :: int64
  assumes "0 \<le> sint d" "sint d < 2 ^ 33"
  shows "sint (sdiv_int64 (d * bmdAudioSampleRate48kHz) 90000) = sint d * 48000 div 90000"
proof -
  have m: "sint (d * bmdAudioSampleRate48kHz) = sint d * 48000"
    using assms by (subst sint_mul_small) (simp_all add: bmdAudioSampleRate48kHz_def)
  show ?thesis using assms
    by (subst sint_sdiv_int64) (simp_all add: m signed_divide_int_def sgn_if)
qed

lemma audio_steps_device_calls [simp]:
  "device_calls (adopt_sync_ts s) = device_calls s"
  "device_calls (wrap_around ts s) = device_calls s"
  by (simp_all add: adopt_sync_ts_def wrap_around_def)

lemma ScheduleAudio_live:
  assumes "\<not> (saved_sync_ts s = INT64_MIN \<and> m_audio_sync_ts s = deinit)"
  shows "last_sync_ts (snd (ScheduleAudio ts n a s)) =
           last_sync_ts (wrap_around ts (adopt_sync_ts s))"
    and "device_calls (snd (ScheduleAudio ts n a s)) =
           device_calls s @
             [ScheduleAudioSamples n
                (sdiv_int64 ((ts - last_sync_ts (wrap_around ts (adopt_sync_ts s)))
                               * bmdAudioSampleRate48kHz) 90000)
                bmdAudioSampleRate48kHz]"
  using assms by (auto simp: ScheduleAudio_def Let_def)

text \<open>
  C6.  When \<open>ScheduleAudio\<close> does not discard the frame, let \<open>B\<close> be the baseline
  \<open>last_sync_ts\<close> after a newly published sync value has been adopted.  If the frame's
  timestamp is below \<open>B\<close> the new baseline is \<open>B - 2^32\<close>, otherwise it is \<open>B\<close>; the
  one call to the device is \<open>ScheduleAudioSamples\<close> at the stream time
  \<open>(ts - baseline) * 48000 / 90000\<close>.  When the timestamp and \<open>B\<close> are 32-bit values, the
  difference \<open>ts - baseline\<close> is not negative (it is \<open>ts - B + 2^32\<close> after a wrap), and
  the stream time is that difference times 48000 divided by 90000 as integers.
\<close>

theorem audio_wrap_around_once:
  fixes s :: state_decklink and ts :: int64 and n :: uint32 and a :: "bool \<times> uint32"
  defines "B \<equiv> last_sync_ts (adopt_sync_ts s)"
  defines "s' \<equiv> snd (ScheduleAudio ts n a s)"
  assumes live: "\<not> (saved_sync_ts s = INT64_MIN \<and> m_audio_sync_ts s = deinit)"
  shows "last_sync_ts s' = (if ts <s B then B - 2 ^ 32 else B) \<and>
         device_calls s' = device_calls s @
           [ScheduleAudioSamples n
              (sdiv_int64 ((ts - last_sync_ts s') * bmdAudioSampleRate48kHz) 90000)
              bmdAudioSampleRate48kHz] \<and>
         (0 \<le> sint ts \<and> sint ts < 2 ^ 32 \<and> 0 \<le> sint B \<and> sint B < 2 ^ 32 \<longrightarrow>
            sint (ts - last_sync_ts s') =
              (if sint ts < sint B then sint ts - sint B + 2 ^ 32 else sint ts - sint B) \<and>
            0 \<le> sint (ts - last_sync_ts s') \<and>
            sint (sdiv_int64 ((ts - last_sync_ts s') * bmdAudioSampleRate48kHz) 90000) =
              sint (ts - last_sync_ts s') * 48000 div 90000)"
proof -
  have l: "last_sync_ts s' = (if ts <s B then B - 2 ^ 32 else B)"
    unfolding s'_def B_def ScheduleAudio_live(1) [OF live]
    by (simp add: wrap_around_def)
  have c: "device_calls s' = device_calls s @
           [ScheduleAudioSamples n
              (sdiv_int64 ((ts - last_sync_ts s') * bmdAudioSampleRate48kHz) 90000)
              bmdAudioSampleRate48kHz]"
    unfolding s'_def ScheduleAudio_live [OF live] ..
  have r: "sint (ts - last_sync_ts s') =
              (if sint ts < sint B then sint ts - sint B + 2 ^ 32 else sint ts - sint B) \<and>
            0 \<le> sint (ts - last_sync_ts s') \<and>
            sint (sdiv_int64 ((ts - last_sync_ts s') * bmdAudioSampleRate48kHz) 90000) =
              sint (ts - last_sync_ts s') * 48000 div 90000"
    if h: "0 \<le> sint ts" "sint ts < 2 ^ 32" "0 \<le> sint B" "sint B < 2 ^ 32"
  proof -
    have d: "sint (ts - last_sync_ts s') =
              (if sint ts < sint B then sint ts - sint B + 2 ^ 32 else sint ts - sint B)"
      unfolding l by (rule wrap_around_delta [OF h])
    then have nn: "0 \<le> sint (ts - last_sync_ts s')" and
      ub: "sint (ts - last_sync_ts s') < 2 ^ 33"
      using h by (simp_all split: if_splits)
    from d nn stream_time_int [OF nn ub] show ?thesis by blast
  qed
  from l c r show ?thesis by blast
qed

theorem audio_wrap_around_once_witness:
  "\<not> (saved_sync_ts ((init_state True)\<lparr>m_audio_sync_ts := 4294967000\<rparr>) = INT64_MIN \<and>
      m_audio_sync_ts ((init_state True)\<lparr>m_audio_sync_ts := 4294967000\<rparr>) = deinit) \<and>
   sint (last_sync_ts (adopt_sync_ts ((init_state True)\<lparr>m_audio_sync_ts := 4294967000\<rparr>)))
     = 4294967000 \<and>
   sint (last_sync_ts (snd (ScheduleAudio 100 960 (True, 960)
           ((init_state True)\<lparr>m_audio_sync_ts := 4294967000\<rparr>)))) = - 296 \<and>
   sint (100 - last_sync_ts (snd (ScheduleAudio 100 960 (True, 960)
           ((init_state True)\<lparr>m_audio_sync_ts := 4294967000\<rparr>)))) = 396 \<and>
   device_calls (snd (ScheduleAudio 100 960 (True, 960)
           ((init_state True)\<lparr>m_audio_sync_ts := 4294967000\<rparr>))) =
     [ScheduleAudioSamples 960 211 48000]"
  using audio_wrap_around_once
          [of "(init_state True)\<lparr>m_audio_sync_ts := 4294967000\<rparr>" 100 960 "(True, 960)"]
  by (simp add: init_state_def adopt_sync_ts_def deinit_def resync_def INT64_MIN_def
        sdiv_int64_def bmdAudioSampleRate48kHz_def word_sless_alt)

section \<open>The bounded queue\<close>

lemma queue_size_less:
  assumes "n < 2 ^ 32"
  shows "((of_nat n :: uint32) < MAX_UNPROC_QUEUE_SIZE) = (n < 10)"
  using assms by (simp add: MAX_UNPROC_QUEUE_SIZE_def word_less_nat_alt unat_of_nat)

lemma EnqueueFrame_room:
  assumes "length (schedFrames s) < 10"
  shows "EnqueueFrame f s = (True, s\<lparr>schedFrames := schedFrames s @ [f]\<rparr>)"
  using assms by (simp add: EnqueueFrame_def Let_def queue_size_less)

lemma EnqueueFrame_full:
  assumes "10 \<le> length (schedFrames s)" "length (schedFrames s) < 2 ^ 32"
  shows "EnqueueFrame f s =
           (False, (LOG (Queue_overflow (of_nat (length (schedFrames s)))) (Release f s))
                     \<lparr>m_audio_sync_ts := resync\<rparr>)"
  using assms by (simp add: EnqueueFrame_def Let_def queue_size_less)

lemma putf_scheduled:
  assumes "\<not> low_latency s"
  shows "display_decklink_putf (Some (f, ts)) s =
           EnqueueFrame f (s\<lparr>frames := (frames s)(f := (frames s f)\<lparr>timestamp := ts\<rparr>)\<rparr>)"
  using assms by (simp add: display_decklink_putf_def)

lemma submit_frames_room:
  assumes "\<not> low_latency s" "length (schedFrames s) + length xs \<le> 10"
  shows "fst (submit_frames xs s) = replicate (length xs) True \<and>
         schedFrames (snd (submit_frames xs s)) = schedFrames s @ map fst xs \<and>
         m_audio_sync_ts (snd (submit_frames xs s)) = m_audio_sync_ts s \<and>
         frame_queue (snd (submit_frames xs s)) = frame_queue s \<and>
         logged (snd (submit_frames xs s)) = logged s \<and>
         \<not> low_latency (snd (submit_frames xs s))"
  using assms
proof (induction xs arbitrary: s)
  case Nil
  then show ?case by simp
next
  case (Cons x xs)
  obtain f ts where x: "x = (f, ts)" by (cases x)
  let ?s1 = "s\<lparr>frames := (frames s)(f := (frames s f)\<lparr>timestamp := ts\<rparr>),
               schedFrames := schedFrames s @ [f]\<rparr>"
  have p: "display_decklink_putf (Some (f, ts)) s = (True, ?s1)"
    using Cons.prems by (simp add: putf_scheduled EnqueueFrame_room)
  have "\<not> low_latency ?s1" "length (schedFrames ?s1) + length xs \<le> 10"
    using Cons.prems by simp_all
  from Cons.IH [OF this] show ?case
    by (simp add: p x split_beta)
qed

lemma submit_frames_snoc:
  "submit_frames (xs @ [x]) s =
     (let (rs, s1) = submit_frames xs s;
          (r, s2) = display_decklink_putf (Some x) s1
      in (rs @ [r], s2))"
  by (induction xs arbitrary: s) (simp_all add: split_beta Let_def)

lemma overflow_scenario:
  assumes "\<not> low_latency s" "schedFrames s = []" "length xs = 11"
  shows "fst (submit_frames xs s) = replicate 10 True @ [False] \<and>
         schedFrames (snd (submit_frames xs s)) = map fst (take 10 xs) \<and>
         m_audio_sync_ts (snd (submit_frames xs s)) = resync"
proof -
  have xs: "xs = butlast xs @ [last xs]" using assms(3) by (cases xs rule: rev_cases) auto
  obtain f ts where l: "last xs = (f, ts)" by (cases "last xs")
  let ?ys = "butlast xs"
  have len: "length ?ys = 10" using assms(3) by simp
  have tk: "take 10 xs = ?ys" using assms(3) by (simp add: butlast_conv_take)
  note r = submit_frames_room [of s ?ys]
  let ?s1 = "snd (submit_frames ?ys s)"
  have q: "length (schedFrames ?s1) = 10" "\<not> low_latency ?s1"
    using r assms len by simp_all
  have "submit_frames xs s = submit_frames (?ys @ [(f, ts)]) s" using xs l by simp
  then show ?thesis
    using r assms len q
    by (simp add: submit_frames_snoc split_beta Let_def putf_scheduled EnqueueFrame_full tk)
qed

text \<open>
  C2.  \<open>EnqueueFrame\<close> returns true exactly when the queue holds fewer than
  \<open>MAX_UNPROC_QUEUE_SIZE\<close> = 10 frames, and then the frame is appended and nothing else
  changes.  Otherwise it returns false, the queue is as before, \<open>Release\<close> has been called
  on the frame (its count is one less, and a frame whose count was 1 is now at the back of
  the pool's free list), the overflow is logged, and the audio sync value is \<open>resync\<close>.
  Submitting 11 frames to an empty queue in scheduled mode, with no drain in between,
  succeeds ten times and fails once, for the last frame, and ends in \<open>resync\<close>.
\<close>

theorem enqueue_bounded_by_queue_size:
  fixes s s0 :: state_decklink
  assumes "length (schedFrames s) < 2 ^ 32"
  shows "fst (EnqueueFrame f s) = (length (schedFrames s) < unat MAX_UNPROC_QUEUE_SIZE) \<and>
         unat MAX_UNPROC_QUEUE_SIZE = 10 \<and>
         (length (schedFrames s) < unat MAX_UNPROC_QUEUE_SIZE \<longrightarrow>
            snd (EnqueueFrame f s) = s\<lparr>schedFrames := schedFrames s @ [f]\<rparr>) \<and>
         (unat MAX_UNPROC_QUEUE_SIZE \<le> length (schedFrames s) \<longrightarrow>
            snd (EnqueueFrame f s) =
              (LOG (Queue_overflow (of_nat (length (schedFrames s)))) (Release f s))
                \<lparr>m_audio_sync_ts := resync\<rparr> \<and>
            schedFrames (snd (EnqueueFrame f s)) = schedFrames s \<and>
            m_audio_sync_ts (snd (EnqueueFrame f s)) = resync \<and>
            ref (frames (snd (EnqueueFrame f s)) f) = ref (frames s f) - 1 \<and>
            frame_queue (snd (EnqueueFrame f s)) =
              (if ref (frames s f) = 1 then frame_queue s @ [f] else frame_queue s)) \<and>
         (\<not> low_latency s0 \<and> schedFrames s0 = [] \<and>
          length xs = unat MAX_UNPROC_QUEUE_SIZE + 1 \<longrightarrow>
            fst (submit_frames xs s0) = replicate (unat MAX_UNPROC_QUEUE_SIZE) True @ [False] \<and>
            schedFrames (snd (submit_frames xs s0)) =
              map fst (take (unat MAX_UNPROC_QUEUE_SIZE) xs) \<and>
            m_audio_sync_ts (snd (submit_frames xs s0)) = resync)"
proof -
  have m: "unat MAX_UNPROC_QUEUE_SIZE = 10" by (simp add: MAX_UNPROC_QUEUE_SIZE_def)
  have a: "fst (EnqueueFrame f s) = (length (schedFrames s) < 10)"
    using assms by (simp add: EnqueueFrame_def Let_def queue_size_less)
  have b: "snd (EnqueueFrame f s) = s\<lparr>schedFrames := schedFrames s @ [f]\<rparr>"
    if "length (schedFrames s) < 10"
    using that by (simp add: EnqueueFrame_room)
  have c: "snd (EnqueueFrame f s) =
              (LOG (Queue_overflow (of_nat (length (schedFrames s)))) (Release f s))
                \<lparr>m_audio_sync_ts := resync\<rparr> \<and>
            schedFrames (snd (EnqueueFrame f s)) = schedFrames s \<and>
            m_audio_sync_ts (snd (EnqueueFrame f s)) = resync \<and>
            ref (frames (snd (EnqueueFrame f s)) f) = ref (frames s f) - 1 \<and>
            frame_queue (snd (EnqueueFrame f s)) =
              (if ref (frames s f) = 1 then frame_queue s @ [f] else frame_queue s)"
    if "10 \<le> length (schedFrames s)"
    using that assms
    by (simp add: EnqueueFrame_full Release_frames Release_frame_queue)
  have d: "fst (submit_frames xs s0) = replicate 10 True @ [False] \<and>
            schedFrames (snd (submit_frames xs s0)) = map fst (take 10 xs) \<and>
            m_audio_sync_ts (snd (submit_frames xs s0)) = resync"
    if "\<not> low_latency s0" "schedFrames s0 = []" "length xs = 10 + 1"
    using that by (intro overflow_scenario) simp_all
  show ?thesis unfolding m using a b c d by blast
qed

theorem enqueue_bounded_by_queue_size_witness:
  "length (schedFrames (init_state True)) < 2 ^ 32 \<and>
   length (schedFrames (init_state True)) < unat MAX_UNPROC_QUEUE_SIZE \<and>
   fst (EnqueueFrame 0 (init_state True)) \<and>
   snd (EnqueueFrame 0 (init_state True)) = (init_state True)\<lparr>schedFrames := [0]\<rparr> \<and>
   unat MAX_UNPROC_QUEUE_SIZE \<le>
     length (schedFrames (snd (DeckLinkFrame_Create 1920 1080 3840 0
        ((init_state True)\<lparr>schedFrames := [1, 2, 3, 4, 5, 6, 7, 8, 9, 10]\<rparr>)))) \<and>
   \<not> fst (EnqueueFrame 0 (snd (DeckLinkFrame_Create 1920 1080 3840 0
        ((init_state True)\<lparr>schedFrames := [1, 2, 3, 4, 5, 6, 7, 8, 9, 10]\<rparr>)))) \<and>
   frame_queue (snd (EnqueueFrame 0 (snd (DeckLinkFrame_Create 1920 1080 3840 0
        ((init_state True)\<lparr>schedFrames := [1, 2, 3, 4, 5, 6, 7, 8, 9, 10]\<rparr>))))) = [0] \<and>
   \<not> low_latency (init_state True) \<and>
   fst (submit_frames [(1, 0), (2, 0), (3, 0), (4, 0), (5, 0), (6, 0), (7, 0), (8, 0), (9, 0),
          (10, 0), (11, 0)] (init_state True)) =
     [True, True, True, True, True, True, True, True, True, True, False] \<and>
   m_audio_sync_ts (snd (submit_frames [(1, 0), (2, 0), (3, 0), (4, 0), (5, 0), (6, 0), (7, 0),
          (8, 0), (9, 0), (10, 0), (11, 0)] (init_state True))) = resync"
proof -
  let ?s = "init_state True"
  let ?xs = "[(1, 0), (2, 0), (3, 0), (4, 0), (5, 0), (6, 0), (7, 0), (8, 0), (9, 0),
          (10, 0), (11::nat, 0::int64)]"
  let ?t = "snd (DeckLinkFrame_Create 1920 1080 3840 0
        ((init_state True)\<lparr>schedFrames := [1, 2, 3, 4, 5, 6, 7, 8, 9, 10]\<rparr>))"
  have m: "unat MAX_UNPROC_QUEUE_SIZE = 10" by (simp add: MAX_UNPROC_QUEUE_SIZE_def)
  have s: "length (schedFrames ?s) < 2 ^ 32" "length (schedFrames ?s) < unat MAX_UNPROC_QUEUE_SIZE"
    "\<not> low_latency ?s" "schedFrames ?s = []" "length ?xs = unat MAX_UNPROC_QUEUE_SIZE + 1"
    by (simp_all add: init_state_def m)
  have t: "length (schedFrames ?t) < 2 ^ 32" "unat MAX_UNPROC_QUEUE_SIZE \<le> length (schedFrames ?t)"
    "ref (frames ?t 0) = 1" "frame_queue ?t = []"
    by (simp_all add: init_state_def m DeckLinkFrame_Create_def)
  note S = enqueue_bounded_by_queue_size [OF s(1), of 0 ?s ?xs]
  note T = enqueue_bounded_by_queue_size [OF t(1), of 0 ?s ?xs]
  have 1: "fst (EnqueueFrame 0 ?s)" using S s by blast
  have "snd (EnqueueFrame 0 ?s) = ?s\<lparr>schedFrames := schedFrames ?s @ [0]\<rparr>"
    using S s(2) by blast
  then have 2: "snd (EnqueueFrame 0 ?s) = ?s\<lparr>schedFrames := [0]\<rparr>"
    unfolding s(4) by simp
  have "\<not> length (schedFrames ?t) < unat MAX_UNPROC_QUEUE_SIZE" using t(2) by simp
  then have 3: "\<not> fst (EnqueueFrame 0 ?t)" using T by blast
  have "frame_queue (snd (EnqueueFrame 0 ?t)) =
          (if ref (frames ?t 0) = 1 then frame_queue ?t @ [0] else frame_queue ?t)"
    using T t(2) by blast
  then have 4: "frame_queue (snd (EnqueueFrame 0 ?t)) = [0]"
    unfolding t(3,4) by simp
  have 5: "fst (submit_frames ?xs ?s) = replicate 10 True @ [False] \<and>
           m_audio_sync_ts (snd (submit_frames ?xs ?s)) = resync"
    using S s(3,4,5) unfolding m by blast
  have 6: "replicate 10 True @ [False] =
     [True, True, True, True, True, True, True, True, True, True, False]"
    by (simp add: numeral_eq_Suc)
  show ?thesis using s(1,2,3) t(2) 1 2 3 4 5 unfolding 6 by blast
qed

section \<open>Draining the queue\<close>

lemma sched_frame_dismissed:
  assumes "m_max_sched_frames s < i"
  shows "sched_frame i f s = Some (Release f (LOG (Dismissed_frame (i - 1)) s))"
  using assms by (simp add: sched_frame_def)

lemma map_upt_Suc_shift: "map g [Suc a..<Suc b] = map (\<lambda>j. g (Suc j)) [a..<b]"
  by (simp add: map_Suc_upt [symmetric] del: upt_Suc)

lemma map_upt_0_Suc: "map g [0..<Suc n] = g 0 # map (\<lambda>j. g (Suc j)) [0..<n]"
  by (simp add: upt_conv_Cons map_upt_Suc_shift del: upt_Suc)

lemma unat_Suc_no_wrap:
  fixes i :: uint32
  assumes "unat i + 1 < 2 ^ 32"
  shows "unat (i + 1) = unat i + 1"
  using assms by (simp add: unat_word_ariths)

lemma dismissed_all:
  assumes "unat (m_max_sched_frames s) \<le> unat i" "unat i + length q < 2 ^ 32"
  shows "\<exists>s'. sched_loop i q s = Some s' \<and>
           device_calls s' = device_calls s \<and> schedSeq s' = schedSeq s \<and>
           lastSchedFrame s' = lastSchedFrame s \<and>
           m_audio_sync_ts s' = m_audio_sync_ts s \<and>
           logged s' = logged s @ map (\<lambda>j. Dismissed_frame (i + of_nat j)) [0..<length q] \<and>
           frames s' = (\<lambda>p. (frames s p)\<lparr>ref := ref (frames s p) - of_nat (count_list q p)\<rparr>) \<and>
           schedFrames s' = (if q = [] then schedFrames s else []) \<and>
           m_max_sched_frames s' = m_max_sched_frames s \<and>
           frameRateDuration s' = frameRateDuration s \<and>
           frameRateScale s' = frameRateScale s"
  using assms
proof (induction q arbitrary: i s)
  case Nil
  then show ?case by simp
next
  case (Cons f q)
  have u: "unat (i + 1) = unat i + 1"
    using Cons.prems(2) by (intro unat_Suc_no_wrap) simp
  have lt: "m_max_sched_frames s < i + 1"
    using Cons.prems(1) u by (simp add: word_less_nat_alt)
  let ?s1 = "Release f (LOG (Dismissed_frame i) (s\<lparr>schedFrames := q\<rparr>))"
  have st: "sched_frame (i + 1) f (s\<lparr>schedFrames := q\<rparr>) = Some ?s1"
    using lt by (simp add: sched_frame_dismissed)
  have "unat (m_max_sched_frames ?s1) \<le> unat (i + 1)" "unat (i + 1) + length q < 2 ^ 32"
    using Cons.prems u by simp_all
  from Cons.IH [OF this] obtain s' where
    s': "sched_loop (i + 1) q ?s1 = Some s'"
      "device_calls s' = device_calls ?s1" "schedSeq s' = schedSeq ?s1"
      "lastSchedFrame s' = lastSchedFrame ?s1" "m_audio_sync_ts s' = m_audio_sync_ts ?s1"
      "logged s' = logged ?s1 @ map (\<lambda>j. Dismissed_frame (i + 1 + of_nat j)) [0..<length q]"
      "frames s' = (\<lambda>p. (frames ?s1 p)\<lparr>ref := ref (frames ?s1 p) - of_nat (count_list q p)\<rparr>)"
      "schedFrames s' = (if q = [] then schedFrames ?s1 else [])"
      "m_max_sched_frames s' = m_max_sched_frames ?s1"
      "frameRateDuration s' = frameRateDuration ?s1"
      "frameRateScale s' = frameRateScale ?s1"
    by blast
  have fr: "frames s' = (\<lambda>p. (frames s p)\<lparr>ref := ref (frames s p) - of_nat (count_list (f # q) p)\<rparr>)"
    unfolding s'(7) by (rule ext) (simp add: Release_frames)
  have lg: "logged s' = logged s @ map (\<lambda>j. Dismissed_frame (i + of_nat j)) [0..<length (f # q)]"
    unfolding s'(6) by (simp add: map_upt_0_Suc add.assoc del: upt_Suc)
  show ?case
    using s' st fr lg by (simp del: upt_Suc)
qed


lemma keep_as_last_frames:
  "frames (keep_as_last f s) =
     (\<lambda>p. (frames s p)\<lparr>ref := ref (frames s p) + of_bool (p = f)
                                    - of_bool (lastSchedFrame s = Some p)\<rparr>)"
  by (rule ext)
     (auto simp: keep_as_last_def release_lastSchedFrame_def AddRef_frames Release_frames
        split: option.splits)

lemma sched_frame_kept:
  assumes "\<not> m_max_sched_frames s < i" "0 <s frameRateScale s"
  shows "\<exists>s'. sched_frame i f s = Some s' \<and>
           device_calls s' = device_calls s @
             [ScheduleVideoFrame (Some f) (schedSeq s * frameRateDuration s)
                (frameRateDuration s) (frameRateScale s)] \<and>
           schedSeq s' = schedSeq s + 1 \<and> lastSchedFrame s' = Some f \<and>
           logged s' = logged s \<and> schedFrames s' = schedFrames s \<and>
           frames s' = frames (keep_as_last f s) \<and>
           m_max_sched_frames s' = m_max_sched_frames s \<and>
           frameRateDuration s' = frameRateDuration s \<and>
           frameRateScale s' = frameRateScale s"
  using assms by (simp add: sched_frame_def publish_sync_ts_positive)

lemma sched_loop_result:
  assumes "unat i + length q < 2 ^ 32" "0 <s frameRateScale s"
  shows "\<exists>s'. sched_loop i q s = Some s' \<and>
           device_calls s' = device_calls s @
             map (\<lambda>j. ScheduleVideoFrame (Some (q ! j))
                         ((schedSeq s + of_nat j) * frameRateDuration s)
                         (frameRateDuration s) (frameRateScale s))
               [0..<n_scheduled (m_max_sched_frames s) i (length q)] \<and>
           schedSeq s' = schedSeq s + of_nat (n_scheduled (m_max_sched_frames s) i (length q)) \<and>
           lastSchedFrame s' =
             (if n_scheduled (m_max_sched_frames s) i (length q) = 0 then lastSchedFrame s
              else Some (q ! (n_scheduled (m_max_sched_frames s) i (length q) - 1))) \<and>
           logged s' = logged s @
             map (\<lambda>j. Dismissed_frame (i + of_nat j))
               [n_scheduled (m_max_sched_frames s) i (length q)..<length q] \<and>
           frames s' =
             (\<lambda>p. (frames s p)\<lparr>ref := ref (frames s p)
                - of_nat (count_list (drop (n_scheduled (m_max_sched_frames s) i (length q)) q) p)
                + of_bool (0 < n_scheduled (m_max_sched_frames s) i (length q) \<and>
                           q ! (n_scheduled (m_max_sched_frames s) i (length q) - 1) = p)
                - of_bool (0 < n_scheduled (m_max_sched_frames s) i (length q) \<and>
                           lastSchedFrame s = Some p)\<rparr>) \<and>
           schedFrames s' = (if q = [] then schedFrames s else []) \<and>
           m_max_sched_frames s' = m_max_sched_frames s \<and>
           frameRateDuration s' = frameRateDuration s \<and>
           frameRateScale s' = frameRateScale s"
  using assms
proof (induction q arbitrary: i s)
  case Nil
  then show ?case by (simp add: n_scheduled_def)
next
  case (Cons f q)
  have u: "unat (i + 1) = unat i + 1"
    using Cons.prems(1) by (intro unat_Suc_no_wrap) simp
  show ?case
  proof (cases "unat (m_max_sched_frames s) \<le> unat i")
    case True
    then have n: "n_scheduled (m_max_sched_frames s) i (length (f # q)) = 0"
      by (simp add: n_scheduled_def)
    from dismissed_all [OF True Cons.prems(1)] show ?thesis
      unfolding n by (auto simp del: upt_Suc)
  next
    case False
    let ?s0 = "s\<lparr>schedFrames := q\<rparr>"
    have le: "\<not> m_max_sched_frames ?s0 < i + 1"
      using False u by (simp add: word_less_nat_alt)
    from sched_frame_kept [OF le, of f] Cons.prems(2) obtain s1 where
      s1: "sched_frame (i + 1) f ?s0 = Some s1"
        "device_calls s1 = device_calls s @
             [ScheduleVideoFrame (Some f) (schedSeq s * frameRateDuration s)
                (frameRateDuration s) (frameRateScale s)]"
        "schedSeq s1 = schedSeq s + 1" "lastSchedFrame s1 = Some f"
        "logged s1 = logged s" "schedFrames s1 = q"
        "frames s1 = frames (keep_as_last f ?s0)"
        "m_max_sched_frames s1 = m_max_sched_frames s"
        "frameRateDuration s1 = frameRateDuration s"
        "frameRateScale s1 = frameRateScale s"
      by auto
    define n1 where "n1 = n_scheduled (m_max_sched_frames s) (i + 1) (length q)"
    have n: "n_scheduled (m_max_sched_frames s) i (length (f # q)) = Suc n1"
      using False u unfolding n_scheduled_def n1_def by auto
    have "unat (i + 1) + length q < 2 ^ 32" "0 <s frameRateScale s1"
      using Cons.prems u s1 by simp_all
    from Cons.IH [OF this] obtain s' where
      s': "sched_loop (i + 1) q s1 = Some s'"
        "device_calls s' = device_calls s1 @
             map (\<lambda>j. ScheduleVideoFrame (Some (q ! j))
                         ((schedSeq s1 + of_nat j) * frameRateDuration s1)
                         (frameRateDuration s1) (frameRateScale s1)) [0..<n1]"
        "schedSeq s' = schedSeq s1 + of_nat n1"
        "lastSchedFrame s' = (if n1 = 0 then lastSchedFrame s1 else Some (q ! (n1 - 1)))"
        "logged s' = logged s1 @ map (\<lambda>j. Dismissed_frame (i + 1 + of_nat j)) [n1..<length q]"
        "frames s' =
             (\<lambda>p. (frames s1 p)\<lparr>ref := ref (frames s1 p)
                - of_nat (count_list (drop n1 q) p)
                + of_bool (0 < n1 \<and> q ! (n1 - 1) = p)
                - of_bool (0 < n1 \<and> lastSchedFrame s1 = Some p)\<rparr>)"
        "schedFrames s' = (if q = [] then schedFrames s1 else [])"
        "m_max_sched_frames s' = m_max_sched_frames s1"
        "frameRateDuration s' = frameRateDuration s1"
        "frameRateScale s' = frameRateScale s1"
      unfolding n1_def s1(8) by blast
    have c: "device_calls s' = device_calls s @
             map (\<lambda>j. ScheduleVideoFrame (Some ((f # q) ! j))
                         ((schedSeq s + of_nat j) * frameRateDuration s)
                         (frameRateDuration s) (frameRateScale s)) [0..<Suc n1]"
      unfolding s'(2) s1 by (simp add: map_upt_0_Suc add.assoc del: upt_Suc)
    have l: "logged s' = logged s @
             map (\<lambda>j. Dismissed_frame (i + of_nat j)) [Suc n1..<length (f # q)]"
      unfolding s'(5) s1 by (simp add: map_upt_Suc_shift add.assoc del: upt_Suc)
    have fr: "frames s' =
             (\<lambda>p. (frames s p)\<lparr>ref := ref (frames s p)
                - of_nat (count_list (drop (Suc n1) (f # q)) p)
                + of_bool (0 < Suc n1 \<and> (f # q) ! (Suc n1 - 1) = p)
                - of_bool (0 < Suc n1 \<and> lastSchedFrame s = Some p)\<rparr>)"
      unfolding s'(6) s1 keep_as_last_frames
      by (rule ext) (cases n1; auto)
    have ls: "lastSchedFrame s' = Some ((f # q) ! (Suc n1 - 1))"
      unfolding s'(4) s1 by (cases n1) simp_all
    show ?thesis
      unfolding n using s1(1) s' s1 c l fr ls by (simp del: upt_Suc)
  qed
qed

lemma submit_frames_keeps:
  assumes "\<not> low_latency s" "length (schedFrames s) + length xs \<le> 10"
  shows "device_calls (snd (submit_frames xs s)) = device_calls s \<and>
         schedSeq (snd (submit_frames xs s)) = schedSeq s \<and>
         lastSchedFrame (snd (submit_frames xs s)) = lastSchedFrame s \<and>
         m_max_sched_frames (snd (submit_frames xs s)) = m_max_sched_frames s \<and>
         m_min_sched_frames (snd (submit_frames xs s)) = m_min_sched_frames s \<and>
         frameRateDuration (snd (submit_frames xs s)) = frameRateDuration s \<and>
         frameRateScale (snd (submit_frames xs s)) = frameRateScale s \<and>
         (\<forall>p. ref (frames (snd (submit_frames xs s)) p) = ref (frames s p))"
  using assms
proof (induction xs arbitrary: s)
  case Nil
  then show ?case by simp
next
  case (Cons x xs)
  obtain f ts where x: "x = (f, ts)" by (cases x)
  let ?s1 = "s\<lparr>frames := (frames s)(f := (frames s f)\<lparr>timestamp := ts\<rparr>),
               schedFrames := schedFrames s @ [f]\<rparr>"
  have p: "display_decklink_putf (Some (f, ts)) s = (True, ?s1)"
    using Cons.prems by (simp add: putf_scheduled EnqueueFrame_room)
  have "\<not> low_latency ?s1" "length (schedFrames ?s1) + length xs \<le> 10"
    using Cons.prems by simp_all
  from Cons.IH [OF this] show ?case
    by (simp add: p x split_beta)
qed

lemma sint_add_of_nat:
  fixes x :: int64
  assumes "sint x + int j < 2 ^ 63"
  shows "sint (x + of_nat j) = sint x + int j"
proof -
  have lo: "- (2 ^ 63) \<le> sint x + int j"
    using sint_ge [of x] by simp
  have "x + of_nat j = word_of_int (sint x + int j)"
    by simp
  then have "sint (x + of_nat j) = signed_take_bit (63::nat) (sint x + int j)"
    by (simp only: sint_sbintrunc') simp
  also have "\<dots> = sint x + int j"
    by (rule signed_take_bit_int_eq_self) (use lo assms in simp_all)
  finally show ?thesis .
qed

text \<open>
  C1, as the code has it.  \<open>ScheduleNextFrame\<close> finds a non-empty queue \<open>q\<close> and the
  device reports \<open>i\<close> buffered frames (\<open>i\<close> plus the queue length stays below \<open>2^32\<close>, and
  the time scale is positive).  With \<open>k\<close> the smaller of the queue length and
  \<open>m_max_sched_frames - i\<close>: the first \<open>k\<close> frames of the queue go to the device in queue
  order, frame \<open>j\<close> at the time \<open>(schedSeq + j) * frameRateDuration\<close>; \<open>schedSeq\<close> grows by
  \<open>k\<close>, one for each scheduled frame and none for a dismissed one; each later frame is
  logged as dismissed with the count \<open>i + j\<close> and loses one reference; the queue is empty
  afterwards and \<open>lastSchedFrame\<close> is the last scheduled frame, holding one more
  reference.  While \<open>schedSeq + k\<close> does not overflow, the slot indices \<open>schedSeq + j\<close> grow
  by one from frame to frame.  In particular, after at most \<open>MAX_UNPROC_QUEUE_SIZE\<close>
  submissions \<open>xs\<close> to an empty queue with \<open>b + length xs \<le> m_max_sched_frames\<close>, a drain
  schedules every submitted frame, in call order, and dismisses none.
\<close>

theorem drain_schedules_queue_prefix:
  fixes s s0 :: state_decklink and i b :: uint32
  defines "q \<equiv> schedFrames s"
  defines "k \<equiv> n_scheduled (m_max_sched_frames s) i (length (schedFrames s))"
  assumes nonempty: "schedFrames s \<noteq> []"
    and no_wrap: "unat i + length (schedFrames s) < 2 ^ 32"
    and scale: "0 <s frameRateScale s"
  shows "(\<exists>s'. ScheduleNextFrame i s = Some s' \<and>
           k = min (unat (m_max_sched_frames s) - unat i) (length q) \<and>
           device_calls s' = device_calls s @
             map (\<lambda>j. ScheduleVideoFrame (Some (q ! j))
                         ((schedSeq s + of_nat j) * frameRateDuration s)
                         (frameRateDuration s) (frameRateScale s)) [0..<k] \<and>
           schedSeq s' = schedSeq s + of_nat k \<and>
           logged s' = logged s @ map (\<lambda>j. Dismissed_frame (i + of_nat j)) [k..<length q] \<and>
           schedFrames s' = [] \<and>
           lastSchedFrame s' = (if k = 0 then lastSchedFrame s else Some (q ! (k - 1))) \<and>
           frames s' =
             (\<lambda>p. (frames s p)\<lparr>ref := ref (frames s p)
                - of_nat (count_list (drop k q) p)
                + of_bool (0 < k \<and> q ! (k - 1) = p)
                - of_bool (0 < k \<and> lastSchedFrame s = Some p)\<rparr>)) \<and>
         (sint (schedSeq s) + int k < 2 ^ 63 \<longrightarrow>
            (\<forall>j<k. sint (schedSeq s + of_nat j) = sint (schedSeq s) + int j)) \<and>
         (\<not> low_latency s0 \<and> schedFrames s0 = [] \<and> xs \<noteq> [] \<and>
          length xs \<le> unat MAX_UNPROC_QUEUE_SIZE \<and>
          unat b + length xs \<le> unat (m_max_sched_frames s0) \<and> 0 <s frameRateScale s0 \<longrightarrow>
            (\<exists>s'. ScheduleNextFrame b (snd (submit_frames xs s0)) = Some s' \<and>
               device_calls s' = device_calls s0 @
                 map (\<lambda>j. ScheduleVideoFrame (Some (fst (xs ! j)))
                             ((schedSeq s0 + of_nat j) * frameRateDuration s0)
                             (frameRateDuration s0) (frameRateScale s0)) [0..<length xs] \<and>
               schedSeq s' = schedSeq s0 + of_nat (length xs) \<and>
               logged s' = logged s0))"
proof -
  have A: "\<exists>s'. ScheduleNextFrame i s = Some s' \<and>
           k = min (unat (m_max_sched_frames s) - unat i) (length q) \<and>
           device_calls s' = device_calls s @
             map (\<lambda>j. ScheduleVideoFrame (Some (q ! j))
                         ((schedSeq s + of_nat j) * frameRateDuration s)
                         (frameRateDuration s) (frameRateScale s)) [0..<k] \<and>
           schedSeq s' = schedSeq s + of_nat k \<and>
           logged s' = logged s @ map (\<lambda>j. Dismissed_frame (i + of_nat j)) [k..<length q] \<and>
           schedFrames s' = [] \<and>
           lastSchedFrame s' = (if k = 0 then lastSchedFrame s else Some (q ! (k - 1))) \<and>
           frames s' =
             (\<lambda>p. (frames s p)\<lparr>ref := ref (frames s p)
                - of_nat (count_list (drop k q) p)
                + of_bool (0 < k \<and> q ! (k - 1) = p)
                - of_bool (0 < k \<and> lastSchedFrame s = Some p)\<rparr>)"
  proof -
    have k: "k = min (unat (m_max_sched_frames s) - unat i) (length q)"
      unfolding k_def q_def n_scheduled_def ..
    have d: "ScheduleNextFrame i s = sched_loop i (schedFrames s) s"
      using nonempty by (simp add: ScheduleNextFrame_def)
    from sched_loop_result [OF no_wrap scale] show ?thesis
      unfolding d k [symmetric] unfolding q_def k_def [symmetric]
      using nonempty by auto
  qed
  have B: "\<forall>j<k. sint (schedSeq s + of_nat j) = sint (schedSeq s) + int j"
    if "sint (schedSeq s) + int k < 2 ^ 63"
    using that by (auto intro!: sint_add_of_nat)
  have C: "\<exists>s'. ScheduleNextFrame b (snd (submit_frames xs s0)) = Some s' \<and>
               device_calls s' = device_calls s0 @
                 map (\<lambda>j. ScheduleVideoFrame (Some (fst (xs ! j)))
                             ((schedSeq s0 + of_nat j) * frameRateDuration s0)
                             (frameRateDuration s0) (frameRateScale s0)) [0..<length xs] \<and>
               schedSeq s' = schedSeq s0 + of_nat (length xs) \<and>
               logged s' = logged s0"
    if h: "\<not> low_latency s0" "schedFrames s0 = []" "xs \<noteq> []"
      "length xs \<le> unat MAX_UNPROC_QUEUE_SIZE"
      "unat b + length xs \<le> unat (m_max_sched_frames s0)" "0 <s frameRateScale s0"
  proof -
    let ?s = "snd (submit_frames xs s0)"
    have len: "length (schedFrames s0) + length xs \<le> 10"
      using h by (simp add: MAX_UNPROC_QUEUE_SIZE_def)
    note r = submit_frames_room [OF h(1) len] submit_frames_keeps [OF h(1) len]
    have qq: "schedFrames ?s = map fst xs" using r h(2) by simp
    have w: "unat b + length (map fst xs) < 2 ^ 32"
      using h(5) unsigned_less [of "m_max_sched_frames s0", where ?'a = nat] by simp
    have sc: "0 <s frameRateScale ?s" using r h(6) by simp
    have n: "n_scheduled (m_max_sched_frames ?s) b (length (map fst xs)) = length xs"
      using r h(5) by (simp add: n_scheduled_def)
    from sched_loop_result [OF w sc] obtain s' where
      "sched_loop b (map fst xs) ?s = Some s'"
      "device_calls s' = device_calls ?s @
             map (\<lambda>j. ScheduleVideoFrame (Some (map fst xs ! j))
                         ((schedSeq ?s + of_nat j) * frameRateDuration ?s)
                         (frameRateDuration ?s) (frameRateScale ?s)) [0..<length xs]"
      "schedSeq s' = schedSeq ?s + of_nat (length xs)"
      "logged s' = logged ?s @ map (\<lambda>j. Dismissed_frame (b + of_nat j)) [length xs..<length xs]"
      unfolding n by auto
    then show ?thesis
      using r h(3) qq by (auto simp: ScheduleNextFrame_def)
  qed
  from A B C show ?thesis by blast
qed


lemma scenario_submitted:
  "schedFrames (snd (submit_frames scenario_frames scenario_state)) = [0, 1, 2, 3, 4, 5, 6, 7]"
  "schedSeq (snd (submit_frames scenario_frames scenario_state)) = 0"
  "m_max_sched_frames (snd (submit_frames scenario_frames scenario_state)) = 6"
  "frameRateDuration (snd (submit_frames scenario_frames scenario_state)) = 1"
  "frameRateScale (snd (submit_frames scenario_frames scenario_state)) = 50"
  "device_calls (snd (submit_frames scenario_frames scenario_state)) = []"
  "logged (snd (submit_frames scenario_frames scenario_state)) = []"
  "lastSchedFrame (snd (submit_frames scenario_frames scenario_state)) = None"
  "ref (frames (snd (submit_frames scenario_frames scenario_state)) p) = 1"
proof -
  have a: "\<not> low_latency scenario_state"
    "length (schedFrames scenario_state) + length scenario_frames \<le> 10"
    by (simp_all add: scenario_state_def init_state_def scenario_frames_def)
  note r = submit_frames_room [OF a] submit_frames_keeps [OF a]
  show "schedFrames (snd (submit_frames scenario_frames scenario_state)) = [0, 1, 2, 3, 4, 5, 6, 7]"
    using r by (simp add: scenario_state_def init_state_def scenario_frames_def)
  show "schedSeq (snd (submit_frames scenario_frames scenario_state)) = 0"
    "m_max_sched_frames (snd (submit_frames scenario_frames scenario_state)) = 6"
    "frameRateDuration (snd (submit_frames scenario_frames scenario_state)) = 1"
    "frameRateScale (snd (submit_frames scenario_frames scenario_state)) = 50"
    "device_calls (snd (submit_frames scenario_frames scenario_state)) = []"
    "logged (snd (submit_frames scenario_frames scenario_state)) = []"
    "lastSchedFrame (snd (submit_frames scenario_frames scenario_state)) = None"
    "ref (frames (snd (submit_frames scenario_frames scenario_state)) p) = 1"
    using r by (simp_all add: scenario_state_def init_state_def DEFAULT_MAX_SCHED_FRAMES_def
        DEFAULT_MIN_SCHED_FRAMES_def SCHED_RANGE_def)
qed

lemma upt_6: "[0..<6] = [0, 1, 2, 3, 4, 5]" "[6..<8] = [6, 7]"
  by (simp_all add: upt_rec)

text \<open>
  C1 as stated fails twice.  In the scenario, eight frames are dequeued and \<open>schedSeq\<close>
  goes from 0 to 6, not to 8.  And one frame submitted when the device already reports 6
  buffered frames is not scheduled, though 1 is below the limit of 6.
\<close>

theorem drain_does_not_count_dismissed_frames:
  "length (schedFrames (snd (submit_frames scenario_frames scenario_state))) = 8 \<and>
   schedSeq (snd (submit_frames scenario_frames scenario_state)) = 0 \<and>
   map_option schedSeq
     (ScheduleNextFrame 0 (snd (submit_frames scenario_frames scenario_state))) = Some 6 \<and>
   m_max_sched_frames (snd (submit_frames [(0, 1000)] scenario_state)) = 6 \<and>
   schedFrames (snd (submit_frames [(0, 1000)] scenario_state)) = [0] \<and>
   map_option device_calls
     (ScheduleNextFrame 6 (snd (submit_frames [(0, 1000)] scenario_state))) = Some []"
proof -
  let ?s = "snd (submit_frames scenario_frames scenario_state)"
  have w: "unat (0::uint32) + length (schedFrames ?s) < 2 ^ 32" "0 <s frameRateScale ?s"
    by (simp_all add: scenario_submitted word_sless_alt)
  have n: "n_scheduled (m_max_sched_frames ?s) 0 (length (schedFrames ?s)) = 6"
    by (simp add: scenario_submitted n_scheduled_def)
  from sched_loop_result [OF w] obtain s' where
    "sched_loop 0 (schedFrames ?s) ?s = Some s'" "schedSeq s' = schedSeq ?s + of_nat 6"
    unfolding n by blast
  then have a: "map_option schedSeq (ScheduleNextFrame 0 ?s) = Some 6"
    by (simp add: ScheduleNextFrame_def scenario_submitted)
  let ?t = "snd (submit_frames [(0, 1000)] scenario_state)"
  have t: "m_max_sched_frames ?t = 6" "schedFrames ?t = [0]" "device_calls ?t = []"
    "0 <s frameRateScale ?t"
    by (simp_all add: scenario_state_def init_state_def display_decklink_putf_def
        EnqueueFrame_def MAX_UNPROC_QUEUE_SIZE_def DEFAULT_MAX_SCHED_FRAMES_def
        DEFAULT_MIN_SCHED_FRAMES_def SCHED_RANGE_def word_sless_alt)
  have w2: "unat (6::uint32) + length (schedFrames ?t) < 2 ^ 32"
    unfolding t by simp
  have n2: "n_scheduled (m_max_sched_frames ?t) 6 (length (schedFrames ?t)) = 0"
    unfolding t by (simp add: n_scheduled_def)
  from sched_loop_result [OF w2 t(4)] obtain t' where
    "sched_loop 6 (schedFrames ?t) ?t = Some t'" "device_calls t' = device_calls ?t @ []"
    unfolding n2 by auto
  then have b: "map_option device_calls (ScheduleNextFrame 6 ?t) = Some []"
    unfolding ScheduleNextFrame_def t by simp
  show ?thesis unfolding a b t scenario_submitted by simp
qed


theorem drain_schedules_queue_prefix_witness:
  "schedFrames (snd (submit_frames scenario_frames scenario_state)) \<noteq> [] \<and>
   unat (0::uint32) + length (schedFrames (snd (submit_frames scenario_frames scenario_state)))
     < 2 ^ 32 \<and>
   0 <s frameRateScale (snd (submit_frames scenario_frames scenario_state)) \<and>
   (\<exists>s'. ScheduleNextFrame 0 (snd (submit_frames scenario_frames scenario_state)) = Some s' \<and>
      device_calls s' =
        [ScheduleVideoFrame (Some 0) 0 1 50, ScheduleVideoFrame (Some 1) 1 1 50,
         ScheduleVideoFrame (Some 2) 2 1 50, ScheduleVideoFrame (Some 3) 3 1 50,
         ScheduleVideoFrame (Some 4) 4 1 50, ScheduleVideoFrame (Some 5) 5 1 50] \<and>
      logged s' = [Dismissed_frame 6, Dismissed_frame 7] \<and>
      schedSeq s' = 6 \<and> schedFrames s' = [] \<and> lastSchedFrame s' = Some 5 \<and>
      map (\<lambda>p. ref (frames s' p)) [4, 5, 6, 7] = [1, 2, 0, 0]) \<and>
   \<not> low_latency scenario_state \<and> schedFrames scenario_state = [] \<and>
   unat (0::uint32) + length (take 6 scenario_frames) \<le> unat (m_max_sched_frames scenario_state) \<and>
   (\<exists>s'. ScheduleNextFrame 0 (snd (submit_frames (take 6 scenario_frames) scenario_state)) = Some s' \<and>
      device_calls s' =
        [ScheduleVideoFrame (Some 0) 0 1 50, ScheduleVideoFrame (Some 1) 1 1 50,
         ScheduleVideoFrame (Some 2) 2 1 50, ScheduleVideoFrame (Some 3) 3 1 50,
         ScheduleVideoFrame (Some 4) 4 1 50, ScheduleVideoFrame (Some 5) 5 1 50] \<and>
      logged s' = [] \<and> schedSeq s' = 6)"
proof -
  let ?s = "snd (submit_frames scenario_frames scenario_state)"
  let ?xs = "take 6 scenario_frames"
  have h: "schedFrames ?s \<noteq> []" "unat (0::uint32) + length (schedFrames ?s) < 2 ^ 32"
    "0 <s frameRateScale ?s"
    by (simp_all add: scenario_submitted word_sless_alt)
  have g: "\<not> low_latency scenario_state" "schedFrames scenario_state = []" "?xs \<noteq> []"
    "length ?xs \<le> unat MAX_UNPROC_QUEUE_SIZE"
    "unat (0::uint32) + length ?xs \<le> unat (m_max_sched_frames scenario_state)"
    "0 <s frameRateScale scenario_state"
    "schedSeq scenario_state = 0" "frameRateDuration scenario_state = 1"
    "frameRateScale scenario_state = 50" "device_calls scenario_state = []"
    "logged scenario_state = []"
    by (simp_all add: scenario_state_def init_state_def scenario_frames_def
        MAX_UNPROC_QUEUE_SIZE_def DEFAULT_MAX_SCHED_FRAMES_def DEFAULT_MIN_SCHED_FRAMES_def
        SCHED_RANGE_def word_sless_alt)
  have n: "n_scheduled (m_max_sched_frames ?s) 0 (length (schedFrames ?s)) = 6"
    by (simp add: scenario_submitted n_scheduled_def)
  have xs: "length ?xs = 6" "map (\<lambda>j. fst (?xs ! j)) [0, 1, 2, 3, 4, 5] = [0, 1, 2, 3, 4, 5]"
    by (simp_all add: scenario_frames_def)
  note T = drain_schedules_queue_prefix [OF h, of scenario_state ?xs 0]
  from T obtain s' where s': "ScheduleNextFrame 0 ?s = Some s'"
    "device_calls s' = device_calls ?s @
             map (\<lambda>j. ScheduleVideoFrame (Some (schedFrames ?s ! j))
                         ((schedSeq ?s + of_nat j) * frameRateDuration ?s)
                         (frameRateDuration ?s) (frameRateScale ?s)) [0..<6]"
    "schedSeq s' = schedSeq ?s + of_nat 6"
    "logged s' = logged ?s @ map (\<lambda>j. Dismissed_frame (0 + of_nat j)) [6..<length (schedFrames ?s)]"
    "schedFrames s' = []"
    "lastSchedFrame s' = (if (6::nat) = 0 then lastSchedFrame ?s else Some (schedFrames ?s ! (6 - 1)))"
    "frames s' =
             (\<lambda>p. (frames ?s p)\<lparr>ref := ref (frames ?s p)
                - of_nat (count_list (drop 6 (schedFrames ?s)) p)
                + of_bool (0 < (6::nat) \<and> schedFrames ?s ! (6 - 1) = p)
                - of_bool (0 < (6::nat) \<and> lastSchedFrame ?s = Some p)\<rparr>)"
    unfolding n by blast
  have A: "\<exists>s'. ScheduleNextFrame 0 ?s = Some s' \<and>
      device_calls s' =
        [ScheduleVideoFrame (Some 0) 0 1 50, ScheduleVideoFrame (Some 1) 1 1 50,
         ScheduleVideoFrame (Some 2) 2 1 50, ScheduleVideoFrame (Some 3) 3 1 50,
         ScheduleVideoFrame (Some 4) 4 1 50, ScheduleVideoFrame (Some 5) 5 1 50] \<and>
      logged s' = [Dismissed_frame 6, Dismissed_frame 7] \<and>
      schedSeq s' = 6 \<and> schedFrames s' = [] \<and> lastSchedFrame s' = Some 5 \<and>
      map (\<lambda>p. ref (frames s' p)) [4, 5, 6, 7] = [1, 2, 0, 0]"
    using s' unfolding scenario_submitted upt_6 by simp
  from T g obtain t' where t': "ScheduleNextFrame 0 (snd (submit_frames ?xs scenario_state)) = Some t'"
    "device_calls t' = device_calls scenario_state @
                 map (\<lambda>j. ScheduleVideoFrame (Some (fst (?xs ! j)))
                             ((schedSeq scenario_state + of_nat j) * frameRateDuration scenario_state)
                             (frameRateDuration scenario_state) (frameRateScale scenario_state))
                   [0..<length ?xs]"
    "schedSeq t' = schedSeq scenario_state + of_nat (length ?xs)"
    "logged t' = logged scenario_state"
    by blast
  have B: "\<exists>s'. ScheduleNextFrame 0 (snd (submit_frames ?xs scenario_state)) = Some s' \<and>
      device_calls s' =
        [ScheduleVideoFrame (Some 0) 0 1 50, ScheduleVideoFrame (Some 1) 1 1 50,
         ScheduleVideoFrame (Some 2) 2 1 50, ScheduleVideoFrame (Some 3) 3 1 50,
         ScheduleVideoFrame (Some 4) 4 1 50, ScheduleVideoFrame (Some 5) 5 1 50] \<and>
      logged s' = [] \<and> schedSeq s' = 6"
    using t' xs(2) unfolding xs(1) g upt_6 by simp
  from h g(1,2,5) A B show ?thesis by blast
qed

section \<open>The audio sync value set by the scheduler\<close>

lemma uint_ucast_32:
  fixes x :: int64
  shows "uint (ucast (ucast x :: uint32) :: int64) = uint x mod 2 ^ 32"
  by (simp add: unsigned_ucast_eq take_bit_eq_mod uint_mod_distrib)

lemma sint_ucast_32:
  fixes x :: int64
  shows "sint (ucast (ucast x :: uint32) :: int64) = uint x mod 2 ^ 32"
proof -
  let ?y = "ucast (ucast x :: uint32) :: int64"
  have u: "uint ?y = uint x mod 2 ^ 32" by (rule uint_ucast_32)
  then have "uint ?y < 2 ^ 32" by simp
  then have "uint ?y < 2 ^ 63" by simp
  have nn: "- (2 ^ 63) \<le> uint ?y"
    by (rule order_trans [of _ 0]) simp_all
  have "sint ?y = signed_take_bit (63::nat) (uint ?y)"
    by (simp add: sint_uint)
  also have "\<dots> = uint ?y"
    by (rule signed_take_bit_int_eq_self) (use \<open>uint ?y < 2 ^ 63\<close> nn in simp_all)
  finally show ?thesis using u by simp
qed

lemma uint_sub_mod:
  fixes a b :: int64
  shows "uint (a - b) mod 2 ^ 32 = (sint a - sint b) mod 2 ^ 32"
proof -
  have "a - b = word_of_int (sint a - sint b)" by simp
  then have "uint (a - b) = (sint a - sint b) mod 2 ^ 64"
    by (simp only: uint_word_of_int) simp
  moreover have "((sint a - sint b) mod 2 ^ 64) mod 2 ^ 32 = (sint a - sint b) mod (2 ^ 32 :: int)"
    by (rule mod_mod_cancel) simp
  ultimately show ?thesis by simp
qed

lemma sentinel_iff: "(x \<le>s resync) = (x = deinit \<or> x = resync)"
proof -
  have r: "sint resync = - (2 ^ 63) + 1" "sint deinit = - (2 ^ 63)"
    by (simp_all add: resync_def deinit_def INT64_MIN_def)
  have ge: "- (2 ^ 63) \<le> sint x" using sint_ge [of x] by simp
  have "(x \<le>s resync) = (sint x = sint deinit \<or> sint x = sint resync)"
    unfolding word_sle_eq r using ge by auto
  then show ?thesis by (simp add: word_eq_iff_signed [where ?'a = int])
qed


lemma keep_as_last_timestamp [simp]:
  "timestamp (frames (keep_as_last f s) p) = timestamp (frames s p)"
  by (simp add: keep_as_last_frames)

lemma sched_frame_sync_ts:
  assumes "0 <s frameRateScale s"
  shows "\<exists>s'. sched_frame i f s = Some s' \<and>
           m_audio_sync_ts s' =
             (if i \<le> m_max_sched_frames s \<and> m_audio_sync_ts s \<le>s resync \<and>
                 timestamp (frames s f) \<noteq> INT64_MIN
              then ucast (ucast (timestamp (frames s f) -
                      sdiv_int64 (frameRateDuration s * schedSeq s * 90000) (frameRateScale s))
                    :: uint32)
              else m_audio_sync_ts s)"
  using assms
  by (cases "m_max_sched_frames s < i")
     (auto simp: sched_frame_def publish_sync_ts_positive not_less)

lemma published_value:
  fixes ts dur seq scale :: int64
  assumes "0 <s scale"
  defines "a \<equiv> ucast (ucast (ts - sdiv_int64 (dur * seq * 90000) scale) :: uint32) :: int64"
  shows "0 \<le> sint a" "sint a < 2 ^ 32" "\<not> a \<le>s resync"
    "- (2 ^ 63) \<le> sint dur * sint seq * 90000 \<and> sint dur * sint seq * 90000 < 2 ^ 63 \<Longrightarrow>
       sint a = (sint ts - (sint dur * sint seq * 90000) sdiv sint scale) mod 2 ^ 32"
proof -
  let ?q = "sdiv_int64 (dur * seq * 90000) scale"
  have s: "sint a = uint (ts - ?q) mod 2 ^ 32"
    unfolding a_def by (rule sint_ucast_32)
  show nn: "0 \<le> sint a" and lt: "sint a < 2 ^ 32" unfolding s by simp_all
  have "sint resync < 0" by (simp add: resync_def INT64_MIN_def)
  with nn show "\<not> a \<le>s resync" by (simp add: word_sle_eq)
  assume r: "- (2 ^ 63) \<le> sint dur * sint seq * 90000 \<and> sint dur * sint seq * 90000 < 2 ^ 63"
  have pos: "0 < sint scale" using assms(1) by (simp add: word_sless_alt)
  have ds: "- (2 ^ 63) \<le> sint dur * sint seq \<and> sint dur * sint seq < 2 ^ 63"
    using r by (cases "0 \<le> sint dur * sint seq") auto
  then have m1: "sint (dur * seq) = sint dur * sint seq"
    by (intro sint_mul_small) simp_all
  have m2: "sint (dur * seq * 90000) = sint dur * sint seq * 90000"
    using r by (subst sint_mul_small) (simp_all add: m1)
  have q: "sint ?q = (sint dur * sint seq * 90000) sdiv sint scale"
    using pos by (subst sint_sdiv_int64) (simp_all add: m2)
  show "sint a = (sint ts - (sint dur * sint seq * 90000) sdiv sint scale) mod 2 ^ 32"
    unfolding s uint_sub_mod q ..
qed


text \<open>
  C5, as the code has it.  For a frame popped from the queue with the counter \<open>i\<close> (after
  its increment) and a positive time scale: the audio sync value is set exactly when the
  frame is scheduled (\<open>i \<le> m_max_sched_frames\<close>), the sync value is \<open>deinit\<close> or \<open>resync\<close>,
  and the frame's timestamp is not \<open>INT64_MIN\<close>.  The value stored is
  \<open>timestamp - frameRateDuration * schedSeq * 90000 / frameRateScale\<close> cut to 32 bits: it
  lies in \<open>[0, 2^32)\<close>, so it is neither sentinel, and while the product does not
  overflow it is the integer \<open>timestamp - (duration * seq * 90000) sdiv scale\<close> modulo
  \<open>2^32\<close>, the division truncating.  In every other case the sync value stays as it was.
\<close>

theorem sync_ts_published_when_scheduled:
  fixes s :: state_decklink and f :: frame_ptr and i :: uint32
  defines "ts \<equiv> timestamp (frames s f)"
  defines "publish \<equiv> i \<le> m_max_sched_frames s \<and>
                      (m_audio_sync_ts s = deinit \<or> m_audio_sync_ts s = resync) \<and>
                      timestamp (frames s f) \<noteq> INT64_MIN"
  defines "P \<equiv> sint (frameRateDuration s) * sint (schedSeq s) * 90000"
  assumes scale: "0 <s frameRateScale s"
  shows "\<exists>s'. sched_frame i f s = Some s' \<and>
           (publish \<longrightarrow>
              m_audio_sync_ts s' =
                ucast (ucast (ts - sdiv_int64 (frameRateDuration s * schedSeq s * 90000)
                                     (frameRateScale s)) :: uint32) \<and>
              m_audio_sync_ts s' \<noteq> deinit \<and> m_audio_sync_ts s' \<noteq> resync \<and>
              0 \<le> sint (m_audio_sync_ts s') \<and> sint (m_audio_sync_ts s') < 2 ^ 32 \<and>
              (- (2 ^ 63) \<le> P \<and> P < 2 ^ 63 \<longrightarrow>
                 sint (m_audio_sync_ts s') =
                   (sint ts - P sdiv sint (frameRateScale s)) mod 2 ^ 32)) \<and>
           (\<not> publish \<longrightarrow> m_audio_sync_ts s' = m_audio_sync_ts s)"
proof -
  from sched_frame_sync_ts [OF scale, of i f] obtain s' where
    s': "sched_frame i f s = Some s'"
      "m_audio_sync_ts s' =
         (if publish
          then ucast (ucast (ts - sdiv_int64 (frameRateDuration s * schedSeq s * 90000)
                                     (frameRateScale s)) :: uint32)
          else m_audio_sync_ts s)"
    unfolding publish_def ts_def sentinel_iff by blast
  note v = published_value [where scale = "frameRateScale s" and ts = ts
      and dur = "frameRateDuration s" and seq = "schedSeq s", OF scale]
  have "m_audio_sync_ts s' \<noteq> deinit \<and> m_audio_sync_ts s' \<noteq> resync" if publish
    using v(3) that unfolding s'(2) sentinel_iff by simp
  moreover have "0 \<le> sint (m_audio_sync_ts s') \<and> sint (m_audio_sync_ts s') < 2 ^ 32" if publish
    using v(1,2) that unfolding s'(2) by simp
  moreover have "sint (m_audio_sync_ts s') =
                   (sint ts - P sdiv sint (frameRateScale s)) mod 2 ^ 32"
    if p: publish and r: "- (2 ^ 63) \<le> P \<and> P < 2 ^ 63"
  proof -
    have m: "m_audio_sync_ts s' =
                ucast (ucast (ts - sdiv_int64 (frameRateDuration s * schedSeq s * 90000)
                                     (frameRateScale s)) :: uint32)"
      using p s'(2) by simp
    show ?thesis unfolding m P_def by (rule v(4) [OF r [unfolded P_def]])
  qed
  ultimately show ?thesis using s' by auto
qed

lemma resync_state_fields:
  "schedFrames resync_state = [0]" "schedSeq resync_state = 1"
  "m_audio_sync_ts resync_state = resync" "timestamp (frames resync_state 0) = 1000"
  "frameRateDuration resync_state = 1" "frameRateScale resync_state = 50"
  "m_max_sched_frames resync_state = 6"
  by (simp_all add: resync_state_def scenario_state_def init_state_def
      display_decklink_putf_def EnqueueFrame_def MAX_UNPROC_QUEUE_SIZE_def
      DEFAULT_MAX_SCHED_FRAMES_def DEFAULT_MIN_SCHED_FRAMES_def SCHED_RANGE_def)

lemma one_frame_drain:
  assumes "schedFrames s = [f]"
  shows "ScheduleNextFrame i s = sched_frame (i + 1) f (s\<lparr>schedFrames := []\<rparr>)"
  using assms by (simp add: ScheduleNextFrame_def split: option.splits)

lemma anchor_1000:
  "(ucast (ucast ((1000::int64) - sdiv_int64 90000 50) :: uint32) :: int64) = 4294966496"
  by (simp add: sdiv_int64_def)

text \<open>
  C5 as stated fails.  After an underrun, a frame with timestamp 1000 scheduled at slot 1
  with a frame duration of 1/50 s publishes 4294966496, not the claimed \<open>1000 - 1800\<close>;
  and when the device is full the same frame is dismissed and nothing is published,
  though the frame has a timestamp and the state is \<open>resync\<close>.
\<close>

theorem sync_ts_is_truncated_to_32_bits:
  "schedFrames resync_state = [0] \<and> schedSeq resync_state = 1 \<and>
   m_audio_sync_ts resync_state = resync \<and> timestamp (frames resync_state 0) = 1000 \<and>
   frameRateDuration resync_state = 1 \<and> frameRateScale resync_state = 50 \<and>
   m_max_sched_frames resync_state = 6 \<and>
   map_option (\<lambda>s. sint (m_audio_sync_ts s)) (ScheduleNextFrame 0 resync_state)
     = Some 4294966496 \<and>
   claimed_anchor 1000 1 1 50 = - 800 \<and>
   map_option m_audio_sync_ts (ScheduleNextFrame 6 resync_state) = Some resync"
proof -
  let ?s = "resync_state\<lparr>schedFrames := []\<rparr>"
  have sc: "0 <s frameRateScale ?s" by (simp add: resync_state_fields word_sless_alt)
  from sched_frame_sync_ts [OF sc, of "0 + 1" 0] obtain s' where
    "sched_frame (0 + 1) 0 ?s = Some s'" "m_audio_sync_ts s' = 4294966496"
    by (auto simp: resync_state_fields resync_def deinit_def INT64_MIN_def anchor_1000
        word_sle_eq)
  then have a: "map_option (\<lambda>s. sint (m_audio_sync_ts s)) (ScheduleNextFrame 0 resync_state)
     = Some 4294966496"
    unfolding one_frame_drain [OF resync_state_fields(1)] by simp
  from sched_frame_sync_ts [OF sc, of "6 + 1" 0] obtain t' where
    "sched_frame (6 + 1) 0 ?s = Some t'" "m_audio_sync_ts t' = resync"
    by (auto simp: resync_state_fields)
  then have b: "map_option m_audio_sync_ts (ScheduleNextFrame 6 resync_state) = Some resync"
    unfolding one_frame_drain [OF resync_state_fields(1)] by simp
  have c: "claimed_anchor 1000 1 1 50 = - 800" by (simp add: claimed_anchor_def)
  show ?thesis using a b c resync_state_fields by blast
qed


theorem sync_ts_published_when_scheduled_witness:
  "0 <s frameRateScale resync_state \<and>
   1 \<le> m_max_sched_frames resync_state \<and> m_audio_sync_ts resync_state = resync \<and>
   timestamp (frames resync_state 0) \<noteq> INT64_MIN \<and>
   - (2 ^ 63) \<le> sint (frameRateDuration resync_state) * sint (schedSeq resync_state) * 90000 \<and>
   sint (frameRateDuration resync_state) * sint (schedSeq resync_state) * 90000 < 2 ^ 63 \<and>
   (\<exists>s'. sched_frame 1 0 resync_state = Some s' \<and>
         sint (m_audio_sync_ts s') = (1000 - 1800) mod 2 ^ 32 \<and>
         m_audio_sync_ts s' \<noteq> resync) \<and>
   \<not> 7 \<le> m_max_sched_frames resync_state \<and>
   (\<exists>s'. sched_frame 7 0 resync_state = Some s' \<and> m_audio_sync_ts s' = resync)"
proof -
  have h: "0 <s frameRateScale resync_state"
    "1 \<le> m_max_sched_frames resync_state \<and>
       (m_audio_sync_ts resync_state = deinit \<or> m_audio_sync_ts resync_state = resync) \<and>
       timestamp (frames resync_state 0) \<noteq> INT64_MIN"
    "- (2 ^ 63) \<le> sint (frameRateDuration resync_state) * sint (schedSeq resync_state) * 90000 \<and>
     sint (frameRateDuration resync_state) * sint (schedSeq resync_state) * 90000 < 2 ^ 63"
    "\<not> (7 \<le> m_max_sched_frames resync_state \<and>
       (m_audio_sync_ts resync_state = deinit \<or> m_audio_sync_ts resync_state = resync) \<and>
       timestamp (frames resync_state 0) \<noteq> INT64_MIN)"
    by (simp_all add: resync_state_fields word_sless_alt INT64_MIN_def)
  have v: "sint (timestamp (frames resync_state 0)) -
             sint (frameRateDuration resync_state) * sint (schedSeq resync_state) * 90000 sdiv
             sint (frameRateScale resync_state) = 1000 - 1800"
    by (simp add: resync_state_fields)
  from sync_ts_published_when_scheduled [OF h(1), of 1 0] h(2,3) obtain s' where
    "sched_frame 1 0 resync_state = Some s'"
    "sint (m_audio_sync_ts s') =
       (sint (timestamp (frames resync_state 0)) -
        sint (frameRateDuration resync_state) * sint (schedSeq resync_state) * 90000 sdiv
        sint (frameRateScale resync_state)) mod 2 ^ 32"
    "m_audio_sync_ts s' \<noteq> resync"
    by blast
  then have A: "\<exists>s'. sched_frame 1 0 resync_state = Some s' \<and>
         sint (m_audio_sync_ts s') = (1000 - 1800) mod 2 ^ 32 \<and>
         m_audio_sync_ts s' \<noteq> resync"
    unfolding v by blast
  from sync_ts_published_when_scheduled [OF h(1), of 7 0] h(4) obtain t' where
    "sched_frame 7 0 resync_state = Some t'"
    "m_audio_sync_ts t' = m_audio_sync_ts resync_state"
    by blast
  then have B: "\<exists>s'. sched_frame 7 0 resync_state = Some s' \<and> m_audio_sync_ts s' = resync"
    unfolding resync_state_fields by blast
  have C: "\<not> 7 \<le> m_max_sched_frames resync_state"
    by (simp add: resync_state_fields)
  show ?thesis using h(1,2,3) A B C resync_state_fields(3) by blast
qed

section \<open>Reconfiguration\<close>

lemma prefill_count_is_min:
  assumes "unat (m_min_sched_frames s) < 2 ^ 31"
  shows "prefill_count s = unat (m_min_sched_frames s)"
proof -
  have "unat (m_min_sched_frames s + m_min_sched_frames s) = 2 * unat (m_min_sched_frames s)"
    using assms by (simp add: unat_word_ariths)
  then show ?thesis
    by (simp add: prefill_count_def unat_div)
qed

text \<open>
  C7.  The loop bound in \<open>display_decklink_reconfigure\<close> is
  \<open>(m_min_sched_frames + m_min_sched_frames) / 2\<close>, that is \<open>m_min_sched_frames\<close>.  With
  the defaults 4 and 6 the reconfiguration in scheduled mode pre-fills 4 frames, where
  the average of the two limits is 5: the device receives four frames, at slots 0 to 3.
\<close>

theorem reconfigure_prefills_min_frames:
  "m_min_sched_frames (init_state True) = 4 \<and> m_max_sched_frames (init_state True) = 6 \<and>
   unat ((m_min_sched_frames (init_state True) + m_max_sched_frames (init_state True)) div 2) = 5 \<and>
   prefill_count (init_state True) = 4 \<and>
   map_option (\<lambda>(ok, s). (ok, schedSeq s, logged s, device_calls s))
     (display_decklink_reconfigure scenario_device scenario_desc (init_state True)) =
   Some (True, 4, [],
     [EnableVideoOutput, SetScheduledFrameCompletionCallback True,
      ScheduleVideoFrame (Some 0) 0 1 50, ScheduleVideoFrame (Some 0) 1 1 50,
      ScheduleVideoFrame (Some 0) 2 1 50, ScheduleVideoFrame (Some 0) 3 1 50,
      StartScheduledPlayback])"
  by code_simp

section \<open>The buffer pool\<close>




lemma pool_inv_AddRef:
  assumes "pool_inv s" "ref (frames s p) \<noteq> 0"
  shows "pool_inv (AddRef p s)"
proof -
  have np: "p \<notin> set (frame_queue s)" using assms by (auto simp: pool_inv_def)
  show ?thesis
    using assms np by (auto simp: pool_inv_def AddRef_frames)
qed




lemma frame_mismatch_ref [simp]:
  "frame_mismatch l (AddRef p s) t = frame_mismatch l s t"
  "frame_mismatch l (Release p s) t = frame_mismatch l s t"
  "frame_mismatch l (s\<lparr>frame_queue := q\<rparr>) t = frame_mismatch l s t"
  by (auto simp: frame_mismatch_def AddRef_frames Release_frames)

lemma right_eyes_held_frame_queue [simp]:
  "right_eyes_held (s\<lparr>frame_queue := q\<rparr>) = right_eyes_held s"
  by (simp add: right_eyes_held_def cong: option.case_cong)









section \<open>Repeated frames and the reference count\<close>

text \<open>
  A completion that finds the queue empty and the device short of frames hands
  \<open>lastSchedFrame\<close> to the device once more and then releases the completed frame: the
  count of the completed frame goes down by one and no reference is taken for the frame
  just scheduled.
\<close>

lemma underrun_completion_takes_no_reference:
  assumes "schedFrames s = []" "i < m_min_sched_frames s"
  shows "\<exists>s'. ScheduledFrameCompleted i f s = Some s' \<and>
           ref (frames s' f) = ref (frames s f) - 1 \<and>
           (\<forall>p. p \<noteq> f \<longrightarrow> frames s' p = frames s p) \<and>
           lastSchedFrame s' = lastSchedFrame s \<and> schedFrames s' = [] \<and>
           schedSeq s' = schedSeq s + 1 \<and>
           device_calls s' = device_calls s @
             [ScheduleVideoFrame (lastSchedFrame s) (schedSeq s * frameRateDuration s)
                (frameRateDuration s) (frameRateScale s)] \<and>
           frame_queue s' =
             (if ref (frames s f) = 1 then frame_queue s @ [f] else frame_queue s)"
proof -
  have "\<not> m_min_sched_frames s \<le> i" using assms(2) by (simp add: not_le)
  then show ?thesis
    using assms(1)
    by (simp add: ScheduledFrameCompleted_def ScheduleNextFrame_def LOG_def call_device_def
        Let_def Release_def)
qed

lemma reconfigured_state_invariants:
  "pool_inv reconfigured_state" "right_eyes_held reconfigured_state"
  "held_refs reconfigured_state"
  by code_simp+

lemma underrun_breaks_invariants:
  "map_option pool_inv (completions 5 3 0 reconfigured_state) = Some True"
  "map_option held_refs (completions 5 3 0 reconfigured_state) = Some False"
  "map_option pool_inv (completions 6 3 0 reconfigured_state) = Some False"
  by code_simp+

lemma reconfigured_state_fields:
  "map_option fst (display_decklink_reconfigure scenario_device scenario_desc (init_state True)) =
     Some True"
  "initialized reconfigured_state" "\<not> audio_reconfigure reconfigured_state"
  "schedFrames reconfigured_state = []" "m_min_sched_frames reconfigured_state = 4"
  "frame0_view reconfigured_state = ([], 5, Some 0, 4)"
  by code_simp+

lemma underrun_completions:
  "map_option frame0_view (completions 4 3 0 reconfigured_state) = Some ([], 1, Some 0, 8)"
  "map_option frame0_view (completions 5 3 0 reconfigured_state) = Some ([0], 0, Some 0, 9)"
  "map_option frame0_view (completions 6 3 0 reconfigured_state) =
     Some ([0], 4294967295, Some 0, 10)"
  by code_simp+

lemma getf_after_underrun:
  "map_option (\<lambda>(r, s). (r, frame0_view s))
     (Option.bind (completions 5 3 0 reconfigured_state)
        (display_decklink_getf scenario_device)) = Some (Some 0, [], 1, Some 0, 9)"
  "map_option (\<lambda>(r, s). (r, frame0_view s))
     (Option.bind (completions 6 3 0 reconfigured_state)
        (display_decklink_getf scenario_device)) = Some (Some 0, [], 0, Some 0, 10)"
  by code_simp+

text \<open>
  C10.  The free list does not keep to frames with count 0, and \<open>display_decklink_getf\<close>
  does not always return a frame with count 1.  When the queue is empty and the device
  reports fewer than \<open>m_min_sched_frames\<close> buffered frames, \<open>ScheduleNextFrame\<close> hands
  \<open>lastSchedFrame\<close> to the device again without \<open>AddRef\<close>, while
  \<open>ScheduledFrameCompleted\<close> calls \<open>Release\<close> for every completed frame.  Take a session
  in scheduled mode after its first reconfiguration with the limits 4 and 6: frame 0 has
  been given to the device four times, its count is 5 and the free list is empty.  With no
  frame from the producer and the device reporting 3 buffered frames at each completion,
  frame 0 has count 1 after four completions; the fifth puts it on the free list with
  count 0 while it still is \<open>lastSchedFrame\<close>, and \<open>display_decklink_getf\<close> then hands it
  out with count 1; the sixth takes the count to 4294967295 with the frame on the free
  list, and \<open>display_decklink_getf\<close> then returns it with count 0.  The components of
  \<open>frame0_view\<close> are the free list, the count of frame 0, \<open>lastSchedFrame\<close> and the number
  of frames given to the device so far.
\<close>

theorem underrun_repeats_release_unheld_references:
  "map_option fst (display_decklink_reconfigure scenario_device scenario_desc (init_state True)) =
     Some True \<and>
   initialized reconfigured_state \<and> \<not> audio_reconfigure reconfigured_state \<and>
   schedFrames reconfigured_state = [] \<and> m_min_sched_frames reconfigured_state = 4 \<and>
   frame0_view reconfigured_state = ([], 5, Some 0, 4) \<and>
   map_option frame0_view (completions 4 3 0 reconfigured_state) = Some ([], 1, Some 0, 8) \<and>
   map_option frame0_view (completions 5 3 0 reconfigured_state) = Some ([0], 0, Some 0, 9) \<and>
   map_option frame0_view (completions 6 3 0 reconfigured_state) =
     Some ([0], 4294967295, Some 0, 10) \<and>
   map_option (\<lambda>(r, s). (r, frame0_view s))
     (Option.bind (completions 5 3 0 reconfigured_state)
        (display_decklink_getf scenario_device)) = Some (Some 0, [], 1, Some 0, 9) \<and>
   map_option (\<lambda>(r, s). (r, frame0_view s))
     (Option.bind (completions 6 3 0 reconfigured_state)
        (display_decklink_getf scenario_device)) = Some (Some 0, [], 0, Some 0, 10)"
  using reconfigured_state_fields underrun_completions getf_after_underrun
  by blast

section \<open>Order of presentation\<close>

lemma video_frames_append [simp]:
  "video_frames (xs @ ys) = video_frames xs @ video_frames ys"
  by (induction xs rule: video_frames.induct) simp_all

lemma video_frames_scheduled [simp]:
  "video_frames (map (\<lambda>j. ScheduleVideoFrame (g j) (t j) d sc) js) = map g js"
  by (induction js) simp_all

lemma remdups_adj_snoc_append:
  assumes "xs \<noteq> []"
  shows "remdups_adj (xs @ ys) = remdups_adj xs @ tl (remdups_adj (last xs # ys))"
proof -
  from assms have xs: "xs = butlast xs @ [last xs]" by simp
  have "remdups_adj (butlast xs @ last xs # ys) =
          remdups_adj (butlast xs @ [last xs]) @ tl (remdups_adj (last xs # ys))"
    by (rule remdups_adj_append)
  then show ?thesis using xs by (metis append.assoc append_Cons append_Nil)
qed

text \<open>One pass of the loop, whatever the counter: the frame is scheduled or it is not.\<close>

lemma sched_frame_order:
  assumes "sched_frame i f s = Some s'"
  shows "(video_frames (device_calls s') = video_frames (device_calls s) @ [Some f] \<and>
            lastSchedFrame s' = Some f \<or>
          video_frames (device_calls s') = video_frames (device_calls s) \<and>
            lastSchedFrame s' = lastSchedFrame s) \<and>
         schedFrames s' = schedFrames s \<and> low_latency s' = low_latency s"
proof (cases "m_max_sched_frames s < i")
  case True
  with assms show ?thesis by (auto simp: sched_frame_def)
next
  case False
  with assms obtain s1 where
    s1: "publish_sync_ts f (keep_as_last f s) = Some s1" "s' = schedule_video f s1"
    by (auto simp: sched_frame_def)
  note f = publish_sync_ts_fields [OF s1(1)]
  show ?thesis unfolding s1(2) by (simp add: f)
qed

lemma sched_loop_order:
  assumes "sched_loop i q s = Some s'"
  shows "\<exists>Y. subseq Y q \<and>
           video_frames (device_calls s') = video_frames (device_calls s) @ map Some Y \<and>
           lastSchedFrame s' = last (lastSchedFrame s # map Some Y) \<and>
           schedFrames s' = (if q = [] then schedFrames s else []) \<and>
           low_latency s' = low_latency s"
  using assms
proof (induction q arbitrary: i s)
  case Nil
  then show ?case by simp
next
  case (Cons f q)
  from Cons.prems obtain s1 where
    s1: "sched_frame (i + 1) f (s\<lparr>schedFrames := q\<rparr>) = Some s1"
      "sched_loop (i + 1) q s1 = Some s'"
    by (auto split: option.splits)
  from Cons.IH [OF s1(2)] obtain Y where
    Y: "subseq Y q"
      "video_frames (device_calls s') = video_frames (device_calls s1) @ map Some Y"
      "lastSchedFrame s' = last (lastSchedFrame s1 # map Some Y)"
      "schedFrames s' = (if q = [] then schedFrames s1 else [])"
      "low_latency s' = low_latency s1"
    by blast
  from sched_frame_order [OF s1(1)] have
    o: "video_frames (device_calls s1) = video_frames (device_calls s) @ [Some f] \<and>
            lastSchedFrame s1 = Some f \<or>
          video_frames (device_calls s1) = video_frames (device_calls s) \<and>
            lastSchedFrame s1 = lastSchedFrame s"
      "schedFrames s1 = q" "low_latency s1 = low_latency s"
    by simp_all
  from o(1) show ?case
  proof
    assume a: "video_frames (device_calls s1) = video_frames (device_calls s) @ [Some f] \<and>
            lastSchedFrame s1 = Some f"
    have "subseq (f # Y) (f # q)" using Y(1) by simp
    then show ?thesis
      using Y a o(2,3) by (intro exI [of _ "f # Y"]) auto
  next
    assume a: "video_frames (device_calls s1) = video_frames (device_calls s) \<and>
            lastSchedFrame s1 = lastSchedFrame s"
    have "subseq Y (f # q)" using Y(1) by (rule list_emb_Cons)
    then show ?thesis
      using Y a o(2,3) by (intro exI [of _ Y]) auto
  qed
qed


lemma ScheduleNextFrame_order:
  assumes "ScheduleNextFrame i s = Some s1"
  shows "\<exists>P Y. video_frames (device_calls s1) = video_frames (device_calls s) @ P \<and>
           subseq Y (schedFrames s) \<and> schedFrames s1 = [] \<and>
           remdups_adj (lastSchedFrame s # P) = remdups_adj (lastSchedFrame s # map Some Y) \<and>
           last (lastSchedFrame s # P) = lastSchedFrame s1 \<and>
           last (lastSchedFrame s # map Some Y) = lastSchedFrame s1 \<and>
           low_latency s1 = low_latency s"
proof (cases "schedFrames s = []")
  case True
  show ?thesis
  proof (cases "m_min_sched_frames s \<le> i")
    case le: True
    with True assms have "s1 = s" by (simp add: ScheduleNextFrame_def)
    with True show ?thesis
      by (intro exI [of _ "[]"]) simp
  next
    case False
    with True assms have
      "video_frames (device_calls s1) = video_frames (device_calls s) @ [lastSchedFrame s]"
      "schedFrames s1 = []" "lastSchedFrame s1 = lastSchedFrame s" "low_latency s1 = low_latency s"
      by (auto simp: ScheduleNextFrame_def Let_def)
    then show ?thesis
      by (intro exI [of _ "[lastSchedFrame s]"] exI [of _ "[]"]) simp
  qed
next
  case False
  with assms have "sched_loop i (schedFrames s) s = Some s1"
    by (simp add: ScheduleNextFrame_def)
  from sched_loop_order [OF this] False obtain Y where
    "subseq Y (schedFrames s)"
    "video_frames (device_calls s1) = video_frames (device_calls s) @ map Some Y"
    "lastSchedFrame s1 = last (lastSchedFrame s # map Some Y)"
    "schedFrames s1 = []" "low_latency s1 = low_latency s"
    by auto
  then show ?thesis
    by (intro exI [of _ "map Some Y"] exI [of _ Y]) simp
qed

lemma putf_order:
  assumes "\<not> low_latency s"
  shows "(schedFrames (snd (display_decklink_putf (Some (f, ts)) s)) = schedFrames s @ [f] \<or>
          schedFrames (snd (display_decklink_putf (Some (f, ts)) s)) = schedFrames s) \<and>
         device_calls (snd (display_decklink_putf (Some (f, ts)) s)) = device_calls s \<and>
         lastSchedFrame (snd (display_decklink_putf (Some (f, ts)) s)) = lastSchedFrame s \<and>
         \<not> low_latency (snd (display_decklink_putf (Some (f, ts)) s))"
  using assms by (simp add: putf_scheduled EnqueueFrame_def Let_def)

lemma run_order:
  assumes "\<not> low_latency s" "run es s = Some s'"
  shows "\<exists>P Y. video_frames (device_calls s') = video_frames (device_calls s) @ P \<and>
           subseq Y (schedFrames s @ submitted es) \<and>
           remdups_adj (lastSchedFrame s # P) = remdups_adj (lastSchedFrame s # map Some Y) \<and>
           last (lastSchedFrame s # P) = lastSchedFrame s' \<and>
           last (lastSchedFrame s # map Some Y) = lastSchedFrame s'"
  using assms
proof (induction es arbitrary: s)
  case Nil
  then show ?case by (intro exI [of _ "[]"]) simp
next
  case (Cons e es)
  show ?case
  proof (cases e)
    case (Submit f ts)
    let ?s1 = "snd (display_decklink_putf (Some (f, ts)) s)"
    note p = putf_order [OF Cons.prems(1), of f ts]
    have r: "run es ?s1 = Some s'" using Cons.prems(2) Submit by simp
    from Cons.IH [OF _ r] p obtain P Y where
      PY: "video_frames (device_calls s') = video_frames (device_calls s) @ P"
        "subseq Y (schedFrames ?s1 @ submitted es)"
        "remdups_adj (lastSchedFrame s # P) = remdups_adj (lastSchedFrame s # map Some Y)"
        "last (lastSchedFrame s # P) = lastSchedFrame s'"
        "last (lastSchedFrame s # map Some Y) = lastSchedFrame s'"
      by auto
    have "subseq (schedFrames ?s1 @ submitted es) (schedFrames s @ f # submitted es)"
      using p by (auto intro: list_emb_append_mono)
    with PY(2) have "subseq Y (schedFrames s @ submitted (e # es))"
      unfolding Submit by (auto intro: subseq_order.order_trans)
    with PY show ?thesis by blast
  next
    case (Completed i)
    from Cons.prems(2) Completed obtain s1 where
      s1: "ScheduleNextFrame i s = Some s1" "run es s1 = Some s'"
      by (auto split: option.splits)
    from ScheduleNextFrame_order [OF s1(1)] obtain P1 Y1 where
      1: "video_frames (device_calls s1) = video_frames (device_calls s) @ P1"
        "subseq Y1 (schedFrames s)" "schedFrames s1 = []"
        "remdups_adj (lastSchedFrame s # P1) = remdups_adj (lastSchedFrame s # map Some Y1)"
        "last (lastSchedFrame s # P1) = lastSchedFrame s1"
        "last (lastSchedFrame s # map Some Y1) = lastSchedFrame s1"
        "low_latency s1 = low_latency s"
      by blast
    have "\<not> low_latency s1" using 1(7) Cons.prems(1) by simp
    from Cons.IH [OF this s1(2)] obtain P2 Y2 where
      2: "video_frames (device_calls s') = video_frames (device_calls s1) @ P2"
        "subseq Y2 (schedFrames s1 @ submitted es)"
        "remdups_adj (lastSchedFrame s1 # P2) = remdups_adj (lastSchedFrame s1 # map Some Y2)"
        "last (lastSchedFrame s1 # P2) = lastSchedFrame s'"
        "last (lastSchedFrame s1 # map Some Y2) = lastSchedFrame s'"
      by blast
    let ?l = "lastSchedFrame s"
    have a: "video_frames (device_calls s') = video_frames (device_calls s) @ (P1 @ P2)"
      using 1(1) 2(1) by simp
    have b: "subseq (Y1 @ Y2) (schedFrames s @ submitted (e # es))"
      using 1(2,3) 2(2) Completed by (auto intro: list_emb_append_mono)
    have "remdups_adj ((?l # P1) @ P2) =
            remdups_adj (?l # P1) @ tl (remdups_adj (last (?l # P1) # P2))"
      by (rule remdups_adj_snoc_append) simp
    also have "\<dots> = remdups_adj (?l # map Some Y1) @
                        tl (remdups_adj (last (?l # map Some Y1) # map Some Y2))"
      unfolding 1(4,5,6) 2(3) ..
    also have "\<dots> = remdups_adj ((?l # map Some Y1) @ map Some Y2)"
      by (rule remdups_adj_snoc_append [symmetric]) simp
    finally have c: "remdups_adj (?l # P1 @ P2) = remdups_adj (?l # map Some (Y1 @ Y2))"
      by simp
    have d: "last (?l # P1 @ P2) = lastSchedFrame s'"
      using 1(5) 2(4) by (cases P2) (simp_all add: last_append)
    have e': "last (?l # map Some (Y1 @ Y2)) = lastSchedFrame s'"
      using 1(6) 2(5) by (cases Y2) (simp_all add: last_append)
    from a b c d e' show ?thesis by blast
  qed
qed


lemma sched_frame_total:
  assumes "0 <s frameRateScale s"
  shows "\<exists>s'. sched_frame i f s = Some s' \<and> frameRateScale s' = frameRateScale s"
proof (cases "m_max_sched_frames s < i")
  case True
  then show ?thesis by (simp add: sched_frame_def)
next
  case False
  from sched_frame_kept [OF False assms, of f] show ?thesis by blast
qed

lemma sched_loop_total:
  assumes "0 <s frameRateScale s"
  shows "\<exists>s'. sched_loop i q s = Some s' \<and> frameRateScale s' = frameRateScale s"
  using assms
proof (induction q arbitrary: i s)
  case Nil
  then show ?case by simp
next
  case (Cons f q)
  have "0 <s frameRateScale (s\<lparr>schedFrames := q\<rparr>)" using Cons.prems by simp
  from sched_frame_total [OF this, of "i + 1" f] obtain s1 where
    s1: "sched_frame (i + 1) f (s\<lparr>schedFrames := q\<rparr>) = Some s1"
      "frameRateScale s1 = frameRateScale s"
    by auto
  from Cons.IH [of s1 "i + 1"] s1(2) Cons.prems obtain s' where
    "sched_loop (i + 1) q s1 = Some s'" "frameRateScale s' = frameRateScale s"
    by auto
  with s1 show ?case by simp
qed

lemma ScheduleNextFrame_total:
  assumes "0 <s frameRateScale s"
  shows "\<exists>s'. ScheduleNextFrame i s = Some s' \<and> frameRateScale s' = frameRateScale s \<and>
           low_latency s' = low_latency s"
proof -
  from sched_loop_total [OF assms, of i "schedFrames s"] obtain s' where
    s': "sched_loop i (schedFrames s) s = Some s'" "frameRateScale s' = frameRateScale s"
    by blast
  show ?thesis
  proof (cases "schedFrames s = []")
    case True
    then show ?thesis by (simp add: ScheduleNextFrame_def Let_def)
  next
    case False
    then have e: "ScheduleNextFrame i s = Some s'"
      using s' by (simp add: ScheduleNextFrame_def)
    from ScheduleNextFrame_order [OF e] s' e show ?thesis by auto
  qed
qed

lemma run_total:
  assumes "\<not> low_latency s" "0 <s frameRateScale s"
  shows "\<exists>s'. run es s = Some s'"
  using assms
proof (induction es arbitrary: s)
  case Nil
  then show ?case by simp
next
  case (Cons e es)
  show ?case
  proof (cases e)
    case (Submit f ts)
    let ?s1 = "snd (display_decklink_putf (Some (f, ts)) s)"
    have "\<not> low_latency ?s1" using putf_order [OF Cons.prems(1), of f ts] by simp
    moreover have "frameRateScale ?s1 = frameRateScale s"
      using Cons.prems(1) by (simp add: putf_scheduled EnqueueFrame_def Let_def)
    ultimately show ?thesis using Cons.IH [of ?s1] Cons.prems(2) Submit by simp
  next
    case (Completed i)
    from ScheduleNextFrame_total [OF Cons.prems(2), of i] obtain s1 where
      "ScheduleNextFrame i s = Some s1" "frameRateScale s1 = frameRateScale s"
      "low_latency s1 = low_latency s"
      by blast
    then show ?thesis using Cons.IH [of s1] Cons.prems Completed by simp
  qed
qed

lemma map_nth_upt_take:
  assumes "k \<le> length q"
  shows "map (\<lambda>j. q ! j) [0..<k] = take k q"
proof -
  have "take k q = take k (map (\<lambda>j. q ! j) [0..<length q])" by (simp add: map_nth)
  also have "\<dots> = map (\<lambda>j. q ! j) (take k [0..<length q])" by (rule take_map)
  also have "take k [0..<length q] = [0..<k]" using assms by simp
  finally show ?thesis by simp
qed

lemma drain_video_frames:
  assumes "schedFrames s \<noteq> []" "unat i + length (schedFrames s) < 2 ^ 32"
    "0 <s frameRateScale s"
  shows "\<exists>s'. ScheduleNextFrame i s = Some s' \<and>
           video_frames (device_calls s') = video_frames (device_calls s) @
             map Some (take (n_scheduled (m_max_sched_frames s) i (length (schedFrames s)))
                         (schedFrames s)) \<and>
           logged s' = logged s @
             map (\<lambda>j. Dismissed_frame (i + of_nat j))
               [n_scheduled (m_max_sched_frames s) i (length (schedFrames s))
                  ..<length (schedFrames s)]"
proof -
  let ?k = "n_scheduled (m_max_sched_frames s) i (length (schedFrames s))"
  have k: "?k \<le> length (schedFrames s)" by (simp add: n_scheduled_def)
  from sched_loop_result [OF assms(2,3)] obtain s' where
    s': "sched_loop i (schedFrames s) s = Some s'"
      "device_calls s' = device_calls s @
             map (\<lambda>j. ScheduleVideoFrame (Some (schedFrames s ! j))
                         ((schedSeq s + of_nat j) * frameRateDuration s)
                         (frameRateDuration s) (frameRateScale s)) [0..<?k]"
      "logged s' = logged s @ map (\<lambda>j. Dismissed_frame (i + of_nat j)) [?k..<length (schedFrames s)]"
    by blast
  have "video_frames (device_calls s') =
          video_frames (device_calls s) @ map (\<lambda>j. Some (schedFrames s ! j)) [0..<?k]"
    unfolding s'(2) by simp
  also have "map (\<lambda>j. Some (schedFrames s ! j)) [0..<?k] =
               map Some (map (\<lambda>j. schedFrames s ! j) [0..<?k])"
    by simp
  also have "\<dots> = map Some (take ?k (schedFrames s))"
    unfolding map_nth_upt_take [OF k] ..
  finally show ?thesis
    using s'(1,3) assms(1) by (simp add: ScheduleNextFrame_def)
qed

text \<open>
  C4, as the code has it.  In scheduled mode, over any run of submissions and completion
  callbacks (which does not trap when the time scale is positive): the frames passed to
  \<open>ScheduleVideoFrame\<close>, leaving out immediate repetitions (the last frame shown again on
  an underrun), are a subsequence \<open>Y\<close> of the queued frames followed by the submitted
  ones, in that order.  A submission appends the frame to the queue or, on overflow,
  leaves the queue as it is: the incoming, newest frame is the one dropped.  A drain
  schedules the first \<open>k\<close> frames of the queue and dismisses the rest: the newest frames
  are the ones dropped.
\<close>

theorem frames_presented_in_submit_order:
  assumes "\<not> low_latency s"
  shows "(0 <s frameRateScale s \<longrightarrow> (\<exists>s'. run es s = Some s')) \<and>
         (\<forall>s'. run es s = Some s' \<longrightarrow>
            (\<exists>P Y. video_frames (device_calls s') = video_frames (device_calls s) @ P \<and>
               subseq Y (schedFrames s @ submitted es) \<and>
               remdups_adj (lastSchedFrame s # P) =
                 remdups_adj (lastSchedFrame s # map Some Y))) \<and>
         (schedFrames (snd (display_decklink_putf (Some (f, ts)) s)) = schedFrames s @ [f] \<or>
          schedFrames (snd (display_decklink_putf (Some (f, ts)) s)) = schedFrames s) \<and>
         (schedFrames s \<noteq> [] \<and> unat i + length (schedFrames s) < 2 ^ 32 \<and>
          0 <s frameRateScale s \<longrightarrow>
            (\<exists>s'. ScheduleNextFrame i s = Some s' \<and>
               video_frames (device_calls s') = video_frames (device_calls s) @
                 map Some (take (n_scheduled (m_max_sched_frames s) i (length (schedFrames s)))
                             (schedFrames s)) \<and>
               logged s' = logged s @
                 map (\<lambda>j. Dismissed_frame (i + of_nat j))
                   [n_scheduled (m_max_sched_frames s) i (length (schedFrames s))
                      ..<length (schedFrames s)]))"
  using run_total [OF assms, of es] run_order [OF assms, of es]
    putf_order [OF assms, of f ts] drain_video_frames [of s i]
  by blast


lemma scenario_scheduled_mode:
  "\<not> low_latency scenario_state" "0 <s frameRateScale scenario_state"
  "schedFrames scenario_state = []" "lastSchedFrame scenario_state = None"
  "device_calls scenario_state = []"
  "\<not> low_latency (snd (submit_frames scenario_frames scenario_state))"
proof -
  show a: "\<not> low_latency scenario_state" "0 <s frameRateScale scenario_state"
    "schedFrames scenario_state = []" "lastSchedFrame scenario_state = None"
    "device_calls scenario_state = []"
    by (simp_all add: scenario_state_def init_state_def word_sless_alt)
  have "length (schedFrames scenario_state) + length scenario_frames \<le> 10"
    by (simp add: a scenario_frames_def)
  from submit_frames_room [OF a(1) this]
  show "\<not> low_latency (snd (submit_frames scenario_frames scenario_state))" by simp
qed

text \<open>
  C4 as stated fails: the frames dropped are not the oldest.  In the scenario the drain
  schedules the oldest frames 0 to 5 and dismisses the newest, 6 and 7, whose counts drop
  to 0 while frames 0 and 1 keep theirs; and a submission to a full queue drops the
  submitted frame 10 and keeps frames 0 to 9.
\<close>

theorem newest_frames_are_dropped:
  "schedFrames (snd (submit_frames scenario_frames scenario_state)) = [0, 1, 2, 3, 4, 5, 6, 7] \<and>
   map_option (\<lambda>s. video_frames (device_calls s))
     (ScheduleNextFrame 0 (snd (submit_frames scenario_frames scenario_state))) =
     Some [Some 0, Some 1, Some 2, Some 3, Some 4, Some 5] \<and>
   map_option logged
     (ScheduleNextFrame 0 (snd (submit_frames scenario_frames scenario_state))) =
     Some [Dismissed_frame 6, Dismissed_frame 7] \<and>
   map (\<lambda>p. ref (frames (snd (submit_frames scenario_frames scenario_state)) p)) [0, 1, 6, 7]
     = [1, 1, 1, 1] \<and>
   map_option (\<lambda>s. map (\<lambda>p. ref (frames s p)) [0, 1, 6, 7])
     (ScheduleNextFrame 0 (snd (submit_frames scenario_frames scenario_state))) =
     Some [1, 1, 0, 0] \<and>
   \<not> fst (display_decklink_putf (Some (10, 19000))
           (scenario_state\<lparr>schedFrames := [0, 1, 2, 3, 4, 5, 6, 7, 8, 9]\<rparr>)) \<and>
   schedFrames (snd (display_decklink_putf (Some (10, 19000))
           (scenario_state\<lparr>schedFrames := [0, 1, 2, 3, 4, 5, 6, 7, 8, 9]\<rparr>)))
     = [0, 1, 2, 3, 4, 5, 6, 7, 8, 9]"
proof -
  let ?s = "snd (submit_frames scenario_frames scenario_state)"
  have h: "unat (0::uint32) + length (schedFrames ?s) < 2 ^ 32" "0 <s frameRateScale ?s"
    by (simp_all add: scenario_submitted word_sless_alt)
  have n: "n_scheduled (m_max_sched_frames ?s) 0 (length (schedFrames ?s)) = 6"
    by (simp add: scenario_submitted n_scheduled_def)
  from sched_loop_result [OF h] obtain s' where s': "sched_loop 0 (schedFrames ?s) ?s = Some s'"
    "device_calls s' = device_calls ?s @
             map (\<lambda>j. ScheduleVideoFrame (Some (schedFrames ?s ! j))
                         ((schedSeq ?s + of_nat j) * frameRateDuration ?s)
                         (frameRateDuration ?s) (frameRateScale ?s)) [0..<6]"
    "logged s' = logged ?s @ map (\<lambda>j. Dismissed_frame (0 + of_nat j)) [6..<length (schedFrames ?s)]"
    "frames s' =
             (\<lambda>p. (frames ?s p)\<lparr>ref := ref (frames ?s p)
                - of_nat (count_list (drop 6 (schedFrames ?s)) p)
                + of_bool (0 < (6::nat) \<and> schedFrames ?s ! (6 - 1) = p)
                - of_bool (0 < (6::nat) \<and> lastSchedFrame ?s = Some p)\<rparr>)"
    unfolding n by blast
  have e: "ScheduleNextFrame 0 ?s = Some s'"
    using s'(1) by (simp add: ScheduleNextFrame_def scenario_submitted)
  have a: "video_frames (device_calls s') = [Some 0, Some 1, Some 2, Some 3, Some 4, Some 5]"
    "logged s' = [Dismissed_frame 6, Dismissed_frame 7]"
    "map (\<lambda>p. ref (frames s' p)) [0, 1, 6, 7] = [1, 1, 0, 0]"
    using s'(2,3,4) unfolding scenario_submitted upt_6 by simp_all
  let ?t = "scenario_state\<lparr>schedFrames := [0, 1, 2, 3, 4, 5, 6, 7, 8, 9]\<rparr>"
  let ?t' = "?t\<lparr>frames := (frames ?t)(10 := (frames ?t 10)\<lparr>timestamp := 19000\<rparr>)\<rparr>"
  have p: "display_decklink_putf (Some (10, 19000)) ?t = EnqueueFrame 10 ?t'"
    by (rule putf_scheduled) (simp add: scenario_scheduled_mode)
  have "10 \<le> length (schedFrames ?t')" "length (schedFrames ?t') < 2 ^ 32" by simp_all
  from EnqueueFrame_full [OF this, of 10]
  have b: "\<not> fst (display_decklink_putf (Some (10, 19000)) ?t)"
    "schedFrames (snd (display_decklink_putf (Some (10, 19000)) ?t))
       = [0, 1, 2, 3, 4, 5, 6, 7, 8, 9]"
    unfolding p by simp_all
  show ?thesis
    unfolding e using a b by (simp add: scenario_submitted)
qed

theorem frames_presented_in_submit_order_witness:
  "\<not> low_latency scenario_state \<and> 0 <s frameRateScale scenario_state \<and>
   (\<exists>s' P Y. run [Submit 0 1000, Completed 0, Completed 0, Submit 1 2800, Completed 1]
                scenario_state = Some s' \<and>
      video_frames (device_calls s') = P \<and> subseq Y [0, 1] \<and>
      remdups_adj (None # P) = remdups_adj (None # map Some Y)) \<and>
   fst (display_decklink_putf (Some (0, 1000)) scenario_state) \<and>
   schedFrames (snd (display_decklink_putf (Some (0, 1000)) scenario_state)) = [0] \<and>
   \<not> low_latency (snd (submit_frames scenario_frames scenario_state)) \<and>
   schedFrames (snd (submit_frames scenario_frames scenario_state)) \<noteq> [] \<and>
   unat (0::uint32) + length (schedFrames (snd (submit_frames scenario_frames scenario_state)))
     < 2 ^ 32 \<and>
   0 <s frameRateScale (snd (submit_frames scenario_frames scenario_state)) \<and>
   (\<exists>s'. ScheduleNextFrame 0 (snd (submit_frames scenario_frames scenario_state)) = Some s' \<and>
      video_frames (device_calls s') = [Some 0, Some 1, Some 2, Some 3, Some 4, Some 5] \<and>
      logged s' = [Dismissed_frame 6, Dismissed_frame 7])"
proof -
  let ?es = "[Submit 0 1000, Completed 0, Completed 0, Submit 1 2800, Completed 1]"
  let ?s = "snd (submit_frames scenario_frames scenario_state)"
  note A = frames_presented_in_submit_order [OF scenario_scheduled_mode(1), of ?es 0 1000 0]
  from A scenario_scheduled_mode(2) obtain s' where r: "run ?es scenario_state = Some s'"
    by blast
  with A obtain P Y where
    "video_frames (device_calls s') = video_frames (device_calls scenario_state) @ P"
    "subseq Y (schedFrames scenario_state @ submitted ?es)"
    "remdups_adj (lastSchedFrame scenario_state # P) =
       remdups_adj (lastSchedFrame scenario_state # map Some Y)"
    by blast
  then have 1: "\<exists>s' P Y. run ?es scenario_state = Some s' \<and>
      video_frames (device_calls s') = P \<and> subseq Y [0, 1] \<and>
      remdups_adj (None # P) = remdups_adj (None # map Some Y)"
    using r unfolding scenario_scheduled_mode by auto
  have 2: "fst (display_decklink_putf (Some (0, 1000)) scenario_state) \<and>
    schedFrames (snd (display_decklink_putf (Some (0, 1000)) scenario_state)) = [0]"
    using scenario_scheduled_mode(1,3)
    by (simp add: putf_scheduled EnqueueFrame_room)
  have h: "schedFrames ?s \<noteq> []" "unat (0::uint32) + length (schedFrames ?s) < 2 ^ 32"
    "0 <s frameRateScale ?s"
    by (simp_all add: scenario_submitted word_sless_alt)
  have n: "n_scheduled (m_max_sched_frames ?s) 0 (length (schedFrames ?s)) = 6"
    by (simp add: scenario_submitted n_scheduled_def)
  note B = frames_presented_in_submit_order [OF scenario_scheduled_mode(6), of "[]" 0 0 0]
  from B h obtain t' where t': "ScheduleNextFrame 0 ?s = Some t'"
    "video_frames (device_calls t') = video_frames (device_calls ?s) @
                 map Some (take 6 (schedFrames ?s))"
    "logged t' = logged ?s @ map (\<lambda>j. Dismissed_frame (0 + of_nat j)) [6..<length (schedFrames ?s)]"
    unfolding n by blast
  have 3: "\<exists>s'. ScheduleNextFrame 0 ?s = Some s' \<and>
      video_frames (device_calls s') = [Some 0, Some 1, Some 2, Some 3, Some 4, Some 5] \<and>
      logged s' = [Dismissed_frame 6, Dismissed_frame 7]"
    using t' unfolding scenario_submitted upt_6 by simp
  show ?thesis
    using scenario_scheduled_mode(1,2,6) 1 2 h 3 by blast
qed

section \<open>Reconfiguration and the buffer pool\<close>

lemma heap_cong:
  assumes "frames s' = frames s" "frame_queue s' = frame_queue s" "allocated s' = allocated s"
  shows "pool_inv s' = pool_inv s" "right_eyes_held s' = right_eyes_held s"
    "is_right_eye s' p = is_right_eye s p"
  using assms
  by (simp_all add: pool_inv_def right_eyes_held_def is_right_eye_def cong: option.case_cong)

lemma is_right_eye_ref [simp]:
  "is_right_eye (Release p s) r = is_right_eye s r"
  "is_right_eye (AddRef p s) r = is_right_eye s r"
  by (auto simp: is_right_eye_def Release_frames AddRef_frames)





lemma fold_Release_schedFrames [simp]:
  "schedFrames (fold Release xs s) = schedFrames s"
  by (induction xs arbitrary: s) simp_all

lemma fold_Release_lastSchedFrame [simp]:
  "lastSchedFrame (fold Release xs s) = lastSchedFrame s"
  by (induction xs arbitrary: s) simp_all










lemma held_refs_cong:
  assumes "frames s' = frames s" "allocated s' = allocated s"
    "schedFrames s' = schedFrames s" "lastSchedFrame s' = lastSchedFrame s"
  shows "held_refs s' = held_refs s"
  using assms by (simp add: held_refs_def held_by_scheduler_def is_right_eye_def)










lemma inv_call_device [simp]:
  "pool_inv (call_device c s) = pool_inv s"
  "right_eyes_held (call_device c s) = right_eyes_held s"
  "held_refs (call_device c s) = held_refs s"
  by ((rule heap_cong held_refs_cong; simp)+)

lemma inv_updates [simp]:
  "pool_inv (s\<lparr>initialized := b\<rparr>) = pool_inv s"
  "right_eyes_held (s\<lparr>initialized := b\<rparr>) = right_eyes_held s"
  "held_refs (s\<lparr>initialized := b\<rparr>) = held_refs s"
  "pool_inv (s\<lparr>audio_reconfigure := b\<rparr>) = pool_inv s"
  "right_eyes_held (s\<lparr>audio_reconfigure := b\<rparr>) = right_eyes_held s"
  "held_refs (s\<lparr>audio_reconfigure := b\<rparr>) = held_refs s"
  "pool_inv (s\<lparr>vid_desc := d\<rparr>) = pool_inv s"
  "right_eyes_held (s\<lparr>vid_desc := d\<rparr>) = right_eyes_held s"
  "held_refs (s\<lparr>vid_desc := d\<rparr>) = held_refs s"
  "pool_inv (s\<lparr>s_pixelFormat := pf\<rparr>) = pool_inv s"
  "right_eyes_held (s\<lparr>s_pixelFormat := pf\<rparr>) = right_eyes_held s"
  "held_refs (s\<lparr>s_pixelFormat := pf\<rparr>) = held_refs s"
  "pool_inv (s\<lparr>stereo := b\<rparr>) = pool_inv s"
  "right_eyes_held (s\<lparr>stereo := b\<rparr>) = right_eyes_held s"
  "held_refs (s\<lparr>stereo := b\<rparr>) = held_refs s"
  "pool_inv (s\<lparr>frameRateDuration := x\<rparr>) = pool_inv s"
  "right_eyes_held (s\<lparr>frameRateDuration := x\<rparr>) = right_eyes_held s"
  "held_refs (s\<lparr>frameRateDuration := x\<rparr>) = held_refs s"
  "pool_inv (s\<lparr>frameRateScale := x\<rparr>) = pool_inv s"
  "right_eyes_held (s\<lparr>frameRateScale := x\<rparr>) = right_eyes_held s"
  "held_refs (s\<lparr>frameRateScale := x\<rparr>) = held_refs s"
  "pool_inv (s\<lparr>m_audio_sync_ts := y\<rparr>) = pool_inv s"
  "right_eyes_held (s\<lparr>m_audio_sync_ts := y\<rparr>) = right_eyes_held s"
  "held_refs (s\<lparr>m_audio_sync_ts := y\<rparr>) = held_refs s"
  by ((rule heap_cong held_refs_cong; simp)+)



lemma stop_output_fields [simp]:
  "frames (stop_output s) = frames s" "frame_queue (stop_output s) = frame_queue s"
  "allocated (stop_output s) = allocated s" "schedFrames (stop_output s) = schedFrames s"
  "lastSchedFrame (stop_output s) = lastSchedFrame s"
  by (simp_all add: stop_output_def Let_def)



section \<open>Acquiring a frame\<close>









end
